theory Spec2Isabelle
  imports Main
begin

section \<open>Errors\<close>

text \<open>
  Go \<open>error\<close> values that the program creates or passes on. \<open>ErrorsNew\<close> is
  \<open>errors.New\<close>; the other constructors stand for the errors of the standard library
  calls the program makes, each carrying the text its \<open>Error()\<close> method returns (\<open>errText\<close>).
\<close>

datatype error =
    ErrorsNew string
  | TimeParseError
  | PathError string
  | SyntaxError string
  | NetError string
  | ExecError string
  | ErrTooLong
  | UnmarshalTypeError string string

fun errText :: "error \<Rightarrow> string" where
  "errText (ErrorsNew s) = s"
| "errText TimeParseError = ''parsing time: cannot parse''"
| "errText (PathError s) = s"
| "errText (SyntaxError s) = s"
| "errText (NetError s) = s"
| "errText (ExecError s) = s"
| "errText ErrTooLong = ''bufio.Scanner: token too long''"
| "errText (UnmarshalTypeError v field) =
     (if field = [] then ''json: cannot unmarshal '' @ v @ '' into Go value of type main.Request''
      else ''json: cannot unmarshal '' @ v @ '' into Go struct field '' @ field @ '' of type string'')"

definition bindE :: "error + 'a \<Rightarrow> ('a \<Rightarrow> error + 'b) \<Rightarrow> error + 'b" where
  "bindE r f = (case r of Inl e \<Rightarrow> Inl e | Inr x \<Rightarrow> f x)"

section \<open>Regular expressions (package regexp)\<close>

text \<open>
  The two patterns of the program use literals, the classes \<open>[^\]]\<close>, \<open>[0-9]\<close>,
  \<open>\s\<close> and \<open>.\<close>, greedy star, counted repetition and capture groups. \<open>backtrack\<close>
  lists every way a pattern matches a prefix of the input, in the order of preference of
  a backtracking matcher (greedy star: longest first), with the captures made and the
  rest of the input; the head of the list is the match Go's leftmost-first semantics
  picks at that position. Strings are byte lists: every literal of the patterns is
  ASCII and every class either accepts or rejects all bytes of a multi-byte rune, so
  matching bytes gives the same submatches as matching runes.
\<close>

datatype rx =
    Eps
  | Lit char
  | NotLit char
  | Digit
  | Space
  | Dot
  | Seq rx rx
  | Star rx
  | Group nat rx

definition isDigit :: "char \<Rightarrow> bool" where
  "isDigit c = (c \<in> set ''0123456789'')"

definition isSpaceClass :: "char \<Rightarrow> bool" where
  "isSpaceClass c = (c \<in> set [CHR 0x09, CHR 0x0A, CHR 0x0C, CHR 0x0D, CHR 0x20])"

definition oneChar :: "(char \<Rightarrow> bool) \<Rightarrow> string \<Rightarrow> string list \<Rightarrow> (string list \<times> string) list" where
  "oneChar P s c = (case s of [] \<Rightarrow> [] | x # xs \<Rightarrow> if P x then [(c, xs)] else [])"

function backtrack :: "rx \<Rightarrow> string \<Rightarrow> string list \<Rightarrow> (string list \<times> string) list" where
  "backtrack Eps s c = [(c, s)]"
| "backtrack (Lit a) s c = oneChar (\<lambda>x. x = a) s c"
| "backtrack (NotLit a) s c = oneChar (\<lambda>x. x \<noteq> a) s c"
| "backtrack Digit s c = oneChar isDigit s c"
| "backtrack Space s c = oneChar isSpaceClass s c"
| "backtrack Dot s c = oneChar (\<lambda>x. x \<noteq> CHR 0x0A) s c"
| "backtrack (Seq r1 r2) s c =
     concat (map (\<lambda>p. backtrack r2 (snd p) (fst p)) (backtrack r1 s c))"
| "backtrack (Star r) s c =
     concat (map (\<lambda>p. if length (snd p) < length s then backtrack (Star r) (snd p) (fst p) else [])
                 (backtrack r s c)) @ [(c, s)]"
| "backtrack (Group n r) s c =
     map (\<lambda>p. ((fst p)[n := take (length s - length (snd p)) s], snd p)) (backtrack r s c)"
  by pat_completeness auto
termination
  by (relation "measures [\<lambda>(r, s, c). size r, \<lambda>(r, s, c). length s]") auto

fun rep :: "nat \<Rightarrow> rx \<Rightarrow> rx" where
  "rep 0 r = Eps"
| "rep (Suc n) r = Seq r (rep n r)"

fun seqs :: "rx list \<Rightarrow> rx" where
  "seqs [] = Eps"
| "seqs (r # rs) = Seq r (seqs rs)"

text \<open>
  \<open>FindStringSubmatch\<close>: the leftmost match and its submatches, \<open>[]\<close> (Go's nil
  slice) when there is none. A pattern with three groups gives four strings.
\<close>

definition matchHere :: "rx \<Rightarrow> string \<Rightarrow> string list" where
  "matchHere r s =
     (case backtrack r s [[], [], [], []] of
        [] \<Rightarrow> []
      | p # _ \<Rightarrow> (fst p)[0 := take (length s - length (snd p)) s])"

fun FindStringSubmatch :: "rx \<Rightarrow> string \<Rightarrow> string list" where
  "FindStringSubmatch r [] = matchHere r []"
| "FindStringSubmatch r (x # xs) =
     (case matchHere r (x # xs) of [] \<Rightarrow> FindStringSubmatch r xs | m # ms \<Rightarrow> m # ms)"

text \<open>\<open>\[([^\]]*)\.([0-9]{3})\s([0-9]{4})\]\<close>\<close>

definition searchdLogLinePrefix :: rx where
  "searchdLogLinePrefix =
     seqs [Lit (CHR ''[''), Group 1 (Star (NotLit (CHR '']''))), Lit (CHR ''.''),
           Group 2 (rep 3 Digit), Space, Group 3 (rep 4 Digit), Lit (CHR '']'')]"

section \<open>Instants (package time)\<close>

text \<open>
  A \<open>time.Time\<close> is modelled by the instant it denotes: the number of nanoseconds
  since January 1 of year 1, 00:00:00 UTC, which is the instant of Go's zero value
  \<open>time.Time{}\<close>. \<open>After\<close> compares instants, as \<open>Time.After\<close> does. A
  \<open>time.Duration\<close> is a number of nanoseconds.
\<close>

datatype time = Time (nanos: int)

definition zeroTime :: time where
  "zeroTime = Time 0"

definition After :: "time \<Rightarrow> time \<Rightarrow> bool" where
  "After t u = (nanos u < nanos t)"

definition Add :: "time \<Rightarrow> int \<Rightarrow> time" where
  "Add t d = Time (nanos t + d)"

definition Millisecond :: int where
  "Millisecond = 1000000"

definition isLeap :: "int \<Rightarrow> bool" where
  "isLeap y = (if y mod 4 = 0 then (if y mod 100 = 0 then y mod 400 = 0 else True) else False)"

definition daysBefore :: "int list" where
  "daysBefore = [0, 31, 59, 90, 120, 151, 181, 212, 243, 273, 304, 334, 365]"

definition daysIn :: "int \<Rightarrow> int \<Rightarrow> int" where
  "daysIn m y =
     (if m = 2 \<and> isLeap y then 29 else daysBefore ! nat m - daysBefore ! nat (m - 1))"

definition daysSinceEpoch :: "int \<Rightarrow> int" where
  "daysSinceEpoch y = 365 * (y - 1) + (y - 1) div 4 - (y - 1) div 100 + (y - 1) div 400"

text \<open>
  \<open>time.Date\<close> in UTC, for fields already in range (month 1..12, day within the month,
  hour below 24, minute and second below 60), which is how \<open>Parse\<close> calls it.
\<close>

definition Date :: "int \<Rightarrow> int \<Rightarrow> int \<Rightarrow> int \<Rightarrow> int \<Rightarrow> int \<Rightarrow> int \<Rightarrow> time" where
  "Date y m d h mi s ns =
     (let days = daysSinceEpoch y + daysBefore ! nat (m - 1)
                 + (if isLeap y \<and> 3 \<le> m then 1 else 0) + (d - 1)
      in Time ((((days * 24 + h) * 60 + mi) * 60 + s) * 1000000000 + ns))"

subsection \<open>Parsing with the layout \<open>Mon Jan 2 15:04:05 2006\<close>\<close>

text \<open>
  \<open>time.Parse\<close> walks the layout chunk by chunk. For \<open>dateFormat\<close> the chunks are:
  weekday name, \<open>" "\<close> month name, \<open>" "\<close> day, \<open>" "\<close> hour, \<open>":"\<close> two-digit
  minute, \<open>":"\<close> two-digit second, \<open>" "\<close> four-digit year, end. The helpers below are
  the ones of package time (\<open>isDigit\<close>, \<open>getnum\<close>, \<open>lookup\<close>, \<open>match\<close>,
  \<open>skip\<close>, \<open>cutspace\<close>, \<open>parseNanoseconds\<close>); \<open>Parse\<close> is the parser specialised
  to this one layout. Names are matched without regard to case, a space of the layout
  matches any run of spaces, the weekday is read and ignored, and a fraction after the
  seconds is accepted although the layout has none. As in current Go releases, the
  fraction may start with a comma, and a day beyond the end of its month is an error.
\<close>

definition digitVal :: "char \<Rightarrow> int" where
  "digitVal c = int (of_char c) - 48"

definition isDigitAt :: "string \<Rightarrow> nat \<Rightarrow> bool" where
  "isDigitAt s i = (if i < length s then isDigit (s ! i) else False)"

definition getnum :: "string \<Rightarrow> bool \<Rightarrow> error + (int \<times> string)" where
  "getnum s fixed =
     (if \<not> isDigitAt s 0 then Inl TimeParseError
      else if \<not> isDigitAt s 1 then
        (if fixed then Inl TimeParseError else Inr (digitVal (s ! 0), drop 1 s))
      else Inr (digitVal (s ! 0) * 10 + digitVal (s ! 1), drop 2 s))"

definition lowerBit :: "char \<Rightarrow> nat" where
  "lowerBit c = (let n = of_char c in if (n div 32) mod 2 = 0 then n + 32 else n)"

fun match :: "string \<Rightarrow> string \<Rightarrow> bool" where
  "match (c1 # s1) (c2 # s2) =
     (if c1 = c2 then match s1 s2
      else if lowerBit c1 = lowerBit c2 \<and> 97 \<le> lowerBit c1 \<and> lowerBit c1 \<le> 122
      then match s1 s2 else False)"
| "match s1 s2 = True"

fun lookup :: "string list \<Rightarrow> nat \<Rightarrow> string \<Rightarrow> error + (int \<times> string)" where
  "lookup [] i val = Inl TimeParseError"
| "lookup (v # tab) i val =
     (if length v \<le> length val \<and> match (take (length v) val) v
      then Inr (int i, drop (length v) val)
      else lookup tab (Suc i) val)"

definition shortDayNames :: "string list" where
  "shortDayNames = [''Sun'', ''Mon'', ''Tue'', ''Wed'', ''Thu'', ''Fri'', ''Sat'']"

definition shortMonthNames :: "string list" where
  "shortMonthNames = [''Jan'', ''Feb'', ''Mar'', ''Apr'', ''May'', ''Jun'',
                      ''Jul'', ''Aug'', ''Sep'', ''Oct'', ''Nov'', ''Dec'']"

definition cutspace :: "string \<Rightarrow> string" where
  "cutspace s = dropWhile (\<lambda>c. c = CHR '' '') s"

function skip :: "string \<Rightarrow> string \<Rightarrow> error + string" where
  "skip val [] = Inr val"
| "skip val (p # ps) =
     (if p = CHR '' '' then
        (case val of
           [] \<Rightarrow> skip (cutspace val) (cutspace (p # ps))
         | v # vs \<Rightarrow> if v = CHR '' '' then skip (cutspace val) (cutspace (p # ps))
                     else Inl TimeParseError)
      else
        (case val of
           [] \<Rightarrow> Inl TimeParseError
         | v # vs \<Rightarrow> if v = p then skip vs ps else Inl TimeParseError))"
  by pat_completeness auto
termination
  by (relation "measure (\<lambda>(val, prefix). length prefix)")
     (auto simp: cutspace_def le_imp_less_Suc length_dropWhile_le)

text \<open>
  \<open>parseNanoseconds\<close> on a fraction \<open>value[0:nbytes]\<close> that starts with a period or a
  comma followed by digits only: at most nine digits count, scaled to nanoseconds.
\<close>

fun digitsVal :: "string \<Rightarrow> int \<Rightarrow> int" where
  "digitsVal [] acc = acc"
| "digitsVal (c # cs) acc = digitsVal cs (acc * 10 + digitVal c)"

definition parseNanoseconds :: "string \<Rightarrow> int" where
  "parseNanoseconds frac =
     (let v = take 10 frac in digitsVal (drop 1 v) 0 * 10 ^ (10 - length v))"

definition commaOrPeriod :: "char \<Rightarrow> bool" where
  "commaOrPeriod c = (c \<in> set ''.,'')"

definition fraction :: "string \<Rightarrow> int \<times> string" where
  "fraction val =
     (if 2 \<le> length val \<and> commaOrPeriod (val ! 0) \<and> isDigitAt val 1 then
        (let n = 2 + length (takeWhile isDigit (drop 2 val))
         in (parseNanoseconds (take n val), drop n val))
      else (0, val))"

definition longYear :: "string \<Rightarrow> error + (int \<times> string)" where
  "longYear val =
     (if length val < 4 then Inl TimeParseError
      else if \<not> isDigitAt val 0 then Inl TimeParseError
      else if list_all isDigit (take 4 val) then Inr (digitsVal (take 4 val) 0, drop 4 val)
      else Inl TimeParseError)"

definition inRange :: "int \<Rightarrow> int \<Rightarrow> 'a \<Rightarrow> error + 'a" where
  "inRange x bound r = (if x < 0 then Inl TimeParseError
                        else if bound \<le> x then Inl TimeParseError else Inr r)"

record fields =
  f_year :: int
  f_month :: int
  f_day :: int
  f_hour :: int
  f_min :: int
  f_sec :: int
  f_nsec :: int

definition parseFields :: "string \<Rightarrow> error + fields" where
  "parseFields val0 =
     bindE (lookup shortDayNames 0 val0) (\<lambda>(wd, val1).
     bindE (skip val1 '' '') (\<lambda>val2.
     bindE (lookup shortMonthNames 0 val2) (\<lambda>(mo, val3).
     bindE (skip val3 '' '') (\<lambda>val4.
     bindE (getnum val4 False) (\<lambda>(day, val5).
     bindE (skip val5 '' '') (\<lambda>val6.
     bindE (getnum val6 False) (\<lambda>(hour, val7).
     bindE (inRange hour 24 ()) (\<lambda>_.
     bindE (skip val7 '':'') (\<lambda>val8.
     bindE (getnum val8 True) (\<lambda>(mi, val9).
     bindE (inRange mi 60 ()) (\<lambda>_.
     bindE (skip val9 '':'') (\<lambda>val10.
     bindE (getnum val10 True) (\<lambda>(sec, val11).
     bindE (inRange sec 60 ()) (\<lambda>_.
     (case fraction val11 of (nsec, val12) \<Rightarrow>
     bindE (skip val12 '' '') (\<lambda>val13.
     bindE (longYear val13) (\<lambda>(year, val14).
       if val14 \<noteq> [] then Inl TimeParseError
       else if day < 1 then Inl TimeParseError
       else if daysIn (mo + 1) year < day then Inl TimeParseError
       else Inr \<lparr>f_year = year, f_month = mo + 1, f_day = day, f_hour = hour,
                 f_min = mi, f_sec = sec, f_nsec = nsec\<rparr>)))))))))))))))))"

definition fieldsTime :: "fields \<Rightarrow> time" where
  "fieldsTime f = Date (f_year f) (f_month f) (f_day f) (f_hour f) (f_min f) (f_sec f) (f_nsec f)"

definition Parse :: "string \<Rightarrow> error + time" where
  "Parse val = (case parseFields val of Inl e \<Rightarrow> Inl e | Inr f \<Rightarrow> Inr (fieldsTime f))"

text \<open>
  The calendar order of two parsed timestamps, down to the second: \<open>laterThan f g\<close>
  when \<open>f\<close> names a later second than \<open>g\<close>.
\<close>

definition laterThan :: "fields \<Rightarrow> fields \<Rightarrow> bool" where
  "laterThan f g =
     (if f_year f = f_year g then
        (if f_month f = f_month g then
           (if f_day f = f_day g then
              (if f_hour f = f_hour g then
                 (if f_min f = f_min g then f_sec g < f_sec f else f_min g < f_min f)
               else f_hour g < f_hour f)
            else f_day g < f_day f)
         else f_month g < f_month f)
      else f_year g < f_year f)"

text \<open>The ranges of the fields \<open>Parse\<close> hands to \<open>Date\<close>.\<close>

definition inRanges :: "fields \<Rightarrow> bool" where
  "inRanges f = (1 \<le> f_month f \<and> f_month f \<le> 12 \<and> 1 \<le> f_day f \<and> f_day f \<le> daysIn (f_month f) (f_year f)
     \<and> 0 \<le> f_hour f \<and> f_hour f < 24 \<and> 0 \<le> f_min f \<and> f_min f < 60
     \<and> 0 \<le> f_sec f \<and> f_sec f < 60 \<and> 0 \<le> f_nsec f \<and> 0 \<le> f_year f)"

definition epochFields :: fields where
  "epochFields = \<lparr>f_year = 2012, f_month = 9, f_day = 7, f_hour = 10,
                   f_min = 0, f_sec = 0, f_nsec = 0\<rparr>"

section \<open>Package strconv\<close>

text \<open>
  \<open>strconv.Atoi\<close>: an optional sign and decimal digits. On a syntax error the value is
  0; on a value outside 64 bits it is the nearest bound, with a range error.
\<close>

definition Atoi :: "string \<Rightarrow> int \<times> error option" where
  "Atoi s =
     (let signed = (case s of [] \<Rightarrow> False | c # _ \<Rightarrow> c \<in> set ''+-'');
          body = (if signed then tl s else s);
          n = digitsVal body 0;
          v = (if take 1 s = ''-'' then - n else n)
      in if body = [] then (0, Some (ErrorsNew ''strconv.Atoi: invalid syntax''))
         else if list_all isDigit body then
           (if 2 ^ 63 \<le> v then (2 ^ 63 - 1, Some (ErrorsNew ''strconv.Atoi: value out of range''))
            else if v < - (2 ^ 63) then (- (2 ^ 63), Some (ErrorsNew ''strconv.Atoi: value out of range''))
            else (v, None))
         else (0, Some (ErrorsNew ''strconv.Atoi: invalid syntax'')))"

section \<open>The program\<close>

subsection \<open>Constants and variables\<close>

definition indexerBinPath :: string where
  "indexerBinPath = ''/usr/bin/indexer''"

definition configPath :: string where
  "configPath = ''/etc/sphinxsearch/sphinx.conf''"

definition searchdLogPath :: string where
  "searchdLogPath = ''/var/log/sphinxsearch/searchd.log''"

text \<open>\<open>baseDate, _ = time.Parse(dateFormat, "Fri Sep 7 10:00:00 2012")\<close>: on an error,
  \<open>Parse\<close> returns the zero time.\<close>

definition parsedOrZero :: "error + time \<Rightarrow> time" where
  "parsedOrZero r = (case r of Inl _ \<Rightarrow> zeroTime | Inr t \<Rightarrow> t)"

definition baseDate :: time where
  "baseDate = parsedOrZero (Parse ''Fri Sep 7 10:00:00 2012'')"

subsection \<open>\<open>atoi\<close> and \<open>timeFromLog\<close>\<close>

definition atoi :: "string \<Rightarrow> int" where
  "atoi val = fst (Atoi val)"

text \<open>
  \<open>date.Add(...)\<close> is evaluated and its result dropped (\<open>Add\<close> returns a new
  \<open>Time\<close>, it does not change \<open>date\<close>): the binding \<open>added\<close> below is that
  value, and the function returns \<open>date\<close>.
\<close>

definition timeFromLog :: "string \<Rightarrow> error + time" where
  "timeFromLog line =
     (let match = FindStringSubmatch searchdLogLinePrefix line in
      if 1 < length match then
        (let dateStr = match ! 1;
             milliseconds = match ! 2;
             year = match ! 3;
             date = parsedOrZero (Parse (dateStr @ '' '' @ year));
             added = Add date (Millisecond * atoi milliseconds)
         in Inr date)
      else Inl (ErrorsNew ''Could not match a timestamp prefix''))"

subsection \<open>The log file and \<open>bufio.Scanner\<close>\<close>

text \<open>
  What the file system answers for a path during one call: opening fails, \<open>Stat\<close>
  fails, or the file is there. The log is appended to by another process while the
  program reads it, so a readable file is a sequence of contents: \<open>c 0\<close> is the
  content when the file is opened, measured and positioned, \<open>c (Suc i)\<close> the content
  when iteration \<open>i\<close> of the polling loop reads.
\<close>

datatype fsview = OpenError error | StatError error | Content "nat \<Rightarrow> string"

text \<open>A file that nobody writes to during the call.\<close>

definition static :: "string \<Rightarrow> nat \<Rightarrow> string" where
  "static content i = content"

text \<open>
  The seek offset: \<open>int64(-math.Min(1024, math.Max(float64(fileLength - 1), 0)))\<close>.
  The conversion to \<open>float64\<close> is monotone and exact below \<open>2^53\<close>, so the result
  is that of the integer expression.
\<close>

definition tailOffset :: "int \<Rightarrow> int" where
  "tailOffset fileLength = - min 1024 (max (fileLength - 1) 0)"

text \<open>\<open>file.Seek(offset, 2)\<close>: the new position counts from the end of the file;
  a position before the start is an error and leaves the position where it was.\<close>

definition SeekEnd :: "string \<Rightarrow> int \<Rightarrow> error + nat" where
  "SeekEnd content off =
     (let p = int (length content) + off
      in if p < 0 then Inl (PathError ''seek: invalid argument'') else Inr (nat p))"

definition newline :: char where
  "newline = CHR 0x0A"

definition dropCR :: "string \<Rightarrow> string" where
  "dropCR s = (if s = [] then s else if last s = CHR 0x0D then butlast s else s)"

definition maxTokenSize :: int where
  "maxTokenSize = 65536"

text \<open>
  \<open>readLines\<close>: every token of a \<open>bufio.Scanner\<close> with the default split function
  \<open>ScanLines\<close>, on the bytes from the file position to the end of the file. A line
  ends at a newline or at the end of the data; a trailing carriage return is dropped. A
  line of \<open>maxTokenSize\<close> bytes or more does not fit the scanner's buffer: the scan
  stops there and \<open>scanner.Err()\<close> is \<open>ErrTooLong\<close>.
\<close>

function readLines :: "string \<Rightarrow> string list \<times> error option" where
  "readLines data =
     (if data = [] then ([], None)
      else
        (let l = takeWhile (\<lambda>c. c \<noteq> newline) data in
         if maxTokenSize \<le> int (length l) then ([], Some ErrTooLong)
         else (case readLines (drop (Suc (length l)) data) of
                 (lines, err) \<Rightarrow> (dropCR l # lines, err))))"
  by pat_completeness auto
termination
  by (relation "measure length") auto

text \<open>
  One \<open>Scan()\<close> of a new scanner followed by \<open>Text()\<close>, on the bytes \<open>data\<close> from
  the file position to the end of the file: the text of the first line, and the number
  of bytes the scanner has taken from the file. The scanner fills a buffer of 4096 bytes
  and doubles it up to \<open>maxTokenSize\<close> until the buffer holds a newline or the file
  ends; a regular file fills each read. When the full largest buffer holds no newline
  the scan fails and \<open>Text()\<close> is empty, as it is when there is nothing to read.
\<close>

fun scanFill :: "int list \<Rightarrow> string \<Rightarrow> string \<times> nat" where
  "scanFill [] data = ([], nat maxTokenSize)"
| "scanFill (b # bs) data =
     (let have = (if int (length data) \<le> b then data else take (nat b) data) in
      if newline \<in> set have then (dropCR (takeWhile (\<lambda>c. c \<noteq> newline) have), length have)
      else if int (length data) < b then (dropCR data, length data)
      else scanFill bs data)"

definition scanFirst :: "string \<Rightarrow> string \<times> nat" where
  "scanFirst data = scanFill [4096, 8192, 16384, 32768, 65536] data"

subsection \<open>\<open>getLastTimestamp\<close>\<close>

text \<open>The result pair is \<open>(error, time.Time)\<close>, in the source's order. The result of
  \<open>Seek\<close> and the error of \<open>readLines\<close> are not looked at.\<close>

definition getLastTimestamp :: "fsview \<Rightarrow> error option \<times> time" where
  "getLastTimestamp fs =
     (case fs of
        OpenError err \<Rightarrow> (Some err, zeroTime)
      | StatError err \<Rightarrow> (Some err, zeroTime)
      | Content c \<Rightarrow>
          (let fileLength = int (length (c 0));
               pos = (case SeekEnd (c 0) (tailOffset fileLength) of Inl _ \<Rightarrow> 0 | Inr p \<Rightarrow> p);
               lines = fst (readLines (drop pos (c 0)))
           in if length lines = 0 then (None, baseDate)
              else (case timeFromLog (lines ! (length lines - 1)) of
                      Inl err \<Rightarrow> (Some err, zeroTime)
                    | Inr lastDate \<Rightarrow> (None, lastDate))))"

subsection \<open>\<open>waitForRotation\<close>\<close>

text \<open>
  The pattern \<open>\[([^\]]*)\.([0-9]{3})\s([0-9]{4})\].*\<close> followed by \<open>expression\<close>.
  The expression is read as literal text, which is what it is for the one expression the
  program passes (letters, spaces and a colon).
\<close>

definition rotationRx :: "string \<Rightarrow> rx" where
  "rotationRx expression = Seq searchdLogLinePrefix (Seq (Star Dot) (seqs (map Lit expression)))"

text \<open>
  The result of the call: the error returned, the number of loop iterations begun, and
  the lines written to standard output by \<open>fmt.Println(line)\<close>. In the loop,
  \<open>file.Seek(0, 1)\<close> leaves the file position \<open>pos\<close> where it is; the new
  scanner reads on from there, and what it has read moves the position.
\<close>

record rotation =
  r_err :: "error option"
  r_loops :: nat
  r_printed :: "string list"

function rotationLoop :: "rx \<Rightarrow> time \<Rightarrow> (nat \<Rightarrow> string) \<Rightarrow> nat \<Rightarrow> nat \<Rightarrow> string list \<Rightarrow> rotation" where
  "rotationLoop re threshold c loop pos out =
     (if loop < 10 then
        (case scanFirst (drop pos (c (Suc loop))) of
           (line, n) \<Rightarrow>
             if line \<noteq> [] then
               (let match = FindStringSubmatch re line in
                if 1 < length match then
                  (case timeFromLog line of
                     Inl err \<Rightarrow> \<lparr>r_err = Some err, r_loops = Suc loop, r_printed = out @ [line]\<rparr>
                   | Inr date \<Rightarrow>
                       if After date threshold
                       then \<lparr>r_err = None, r_loops = Suc loop, r_printed = out @ [line]\<rparr>
                       else rotationLoop re threshold c (Suc loop) (pos + n) (out @ [line]))
                else rotationLoop re threshold c (Suc loop) (pos + n) (out @ [line]))
             else rotationLoop re threshold c (Suc loop) (pos + n) out)
      else \<lparr>r_err = None, r_loops = loop, r_printed = out\<rparr>)"
  by pat_completeness auto
termination
  by (relation "measure (\<lambda>(re, threshold, c, loop, pos, out). 10 - loop)") auto

definition waitForRotation :: "fsview \<Rightarrow> string \<Rightarrow> time \<Rightarrow> rotation" where
  "waitForRotation fs expression threshold =
     (case fs of
        OpenError err \<Rightarrow> \<lparr>r_err = Some err, r_loops = 0, r_printed = []\<rparr>
      | StatError err \<Rightarrow> \<lparr>r_err = Some err, r_loops = 0, r_printed = []\<rparr>
      | Content c \<Rightarrow>
          (let fileLength = int (length (c 0)) in
           case SeekEnd (c 0) (tailOffset fileLength) of
             Inl err \<Rightarrow> \<lparr>r_err = Some err, r_loops = 0, r_printed = []\<rparr>
           | Inr pos \<Rightarrow> rotationLoop (rotationRx expression) threshold c 0 pos []))"

subsection \<open>\<open>reindex\<close>\<close>

text \<open>
  The outside world during one \<open>reindex\<close>: the log as \<open>getLastTimestamp\<close> finds it,
  what \<open>cmd.Run()\<close> returns for a program and its arguments, and the log as
  \<open>waitForRotation\<close> finds it afterwards.
\<close>

record world =
  logBefore :: fsview
  cmdRun :: "string \<Rightarrow> string list \<Rightarrow> error option"
  logAfter :: fsview

definition reindex :: "world \<Rightarrow> string \<Rightarrow> error option" where
  "reindex w indexName =
     (case getLastTimestamp (logBefore w) of
        (Some err, _) \<Rightarrow> Some err
      | (None, lastDate) \<Rightarrow>
          (let err = cmdRun w indexerBinPath
                       [''--config '' @ configPath, ''--rotate'', ''--quiet'', indexName]
           in r_err (waitForRotation (logAfter w) ''rotating index: all indexes done'' lastDate)))"

section \<open>Package encoding/json: the syntax check of \<open>Unmarshal\<close>\<close>

text \<open>
  \<open>json.Unmarshal(data, v)\<close> first runs \<open>checkValid\<close> over every byte of \<open>data\<close>
  and returns its error, leaving \<open>v\<close> alone, when the bytes are not one JSON value
  with nothing but white space around it. \<open>checkValid\<close> is the state machine below: a
  step function per state, a stack of the open objects and arrays, and a flag set once
  the top-level value is complete. An error carries the text
  \<open>invalid character <c> <context>\<close>.
\<close>

datatype pstate = parseObjectKey | parseObjectValue | parseArrayValue

datatype jstep =
    stateBeginValueOrEmpty
  | stateBeginValue
  | stateBeginStringOrEmpty
  | stateBeginString
  | stateEndValue
  | stateEndTop
  | stateInString
  | stateInStringEsc
  | stateInStringEscU nat
  | stateNeg
  | state1
  | state0
  | stateDot
  | stateDot0
  | stateE
  | stateESign
  | stateE0
  | stateLiteral string string

record scanner =
  step :: jstep
  parseState :: "pstate list"
  endTop :: bool

definition hexDigits :: string where
  "hexDigits = ''0123456789abcdef''"

definition hex2 :: "nat \<Rightarrow> string" where
  "hex2 n = [hexDigits ! (n div 16), hexDigits ! (n mod 16)]"

text \<open>\<open>quoteChar\<close>: the byte as \<open>strconv.Quote\<close> writes the one-rune string of it,
  between single quotes.\<close>

definition quoteChar :: "char \<Rightarrow> string" where
  "quoteChar c =
     (let n = of_char c :: nat in
      if c = CHR 0x27 then [CHR 0x27, CHR 0x5C, CHR 0x27, CHR 0x27]
      else if c = CHR 0x22 then [CHR 0x27, CHR 0x22, CHR 0x27]
      else [CHR 0x27] @
        (if c = CHR 0x5C then [CHR 0x5C, CHR 0x5C]
         else if n = 7 then [CHR 0x5C, CHR ''a'']
         else if n = 8 then [CHR 0x5C, CHR ''b'']
         else if n = 12 then [CHR 0x5C, CHR ''f'']
         else if n = 10 then [CHR 0x5C, CHR ''n'']
         else if n = 13 then [CHR 0x5C, CHR ''r'']
         else if n = 9 then [CHR 0x5C, CHR ''t'']
         else if n = 11 then [CHR 0x5C, CHR ''v'']
         else if n < 32 then [CHR 0x5C, CHR ''x''] @ hex2 n
         else if n < 127 then [c]
         else if n = 127 then [CHR 0x5C, CHR ''x''] @ hex2 n
         else if n < 161 then [CHR 0x5C, CHR ''u'', CHR ''0'', CHR ''0''] @ hex2 n
         else if n = 173 then [CHR 0x5C, CHR ''u'', CHR ''0'', CHR ''0''] @ hex2 n
         else [char_of (192 + n div 64), char_of (128 + n mod 64)])
        @ [CHR 0x27])"

definition syntaxError :: "char \<Rightarrow> string \<Rightarrow> error" where
  "syntaxError c context = SyntaxError (''invalid character '' @ quoteChar c @ '' '' @ context)"

definition isSpace :: "char \<Rightarrow> bool" where
  "isSpace c = (c \<in> set [CHR 0x20, CHR 0x09, CHR 0x0D, CHR 0x0A])"

definition isHex :: "char \<Rightarrow> bool" where
  "isHex c = (c \<in> set ''0123456789abcdefABCDEF'')"

definition pushParseState :: "scanner \<Rightarrow> jstep \<Rightarrow> pstate \<Rightarrow> scanner" where
  "pushParseState s next p = s\<lparr>step := next, parseState := parseState s @ [p]\<rparr>"

definition popParseState :: "scanner \<Rightarrow> scanner" where
  "popParseState s =
     (let ps = butlast (parseState s) in
      if ps = [] then s\<lparr>step := stateEndTop, parseState := ps, endTop := True\<rparr>
      else s\<lparr>step := stateEndValue, parseState := ps\<rparr>)"

definition replaceTop :: "scanner \<Rightarrow> pstate \<Rightarrow> scanner" where
  "replaceTop s p = s\<lparr>parseState := butlast (parseState s) @ [p]\<rparr>"

definition endTopStep :: "scanner \<Rightarrow> char \<Rightarrow> error + scanner" where
  "endTopStep s c = (if isSpace c then Inr s else Inl (syntaxError c ''after top-level value''))"

definition endValueStep :: "scanner \<Rightarrow> char \<Rightarrow> error + scanner" where
  "endValueStep s c =
     (if parseState s = [] then endTopStep (s\<lparr>step := stateEndTop, endTop := True\<rparr>) c
      else if isSpace c then Inr (s\<lparr>step := stateEndValue\<rparr>)
      else
        (case last (parseState s) of
           parseObjectKey \<Rightarrow>
             if c = CHR '':'' then Inr ((replaceTop s parseObjectValue)\<lparr>step := stateBeginValue\<rparr>)
             else Inl (syntaxError c ''after object key'')
         | parseObjectValue \<Rightarrow>
             if c = CHR '','' then Inr ((replaceTop s parseObjectKey)\<lparr>step := stateBeginString\<rparr>)
             else if c = CHR ''}'' then Inr (popParseState s)
             else Inl (syntaxError c ''after object key:value pair'')
         | parseArrayValue \<Rightarrow>
             if c = CHR '','' then Inr (s\<lparr>step := stateBeginValue\<rparr>)
             else if c = CHR '']'' then Inr (popParseState s)
             else Inl (syntaxError c ''after array element'')))"

definition beginValueStep :: "scanner \<Rightarrow> char \<Rightarrow> error + scanner" where
  "beginValueStep s c =
     (if isSpace c then Inr s
      else if c = CHR ''{'' then Inr (pushParseState s stateBeginStringOrEmpty parseObjectKey)
      else if c = CHR ''['' then Inr (pushParseState s stateBeginValueOrEmpty parseArrayValue)
      else if c = CHR 0x22 then Inr (s\<lparr>step := stateInString\<rparr>)
      else if c = CHR ''-'' then Inr (s\<lparr>step := stateNeg\<rparr>)
      else if c = CHR ''0'' then Inr (s\<lparr>step := state0\<rparr>)
      else if c = CHR ''t'' then Inr (s\<lparr>step := stateLiteral ''true'' ''rue''\<rparr>)
      else if c = CHR ''f'' then Inr (s\<lparr>step := stateLiteral ''false'' ''alse''\<rparr>)
      else if c = CHR ''n'' then Inr (s\<lparr>step := stateLiteral ''null'' ''ull''\<rparr>)
      else if isDigit c then Inr (s\<lparr>step := state1\<rparr>)
      else Inl (syntaxError c ''looking for beginning of value''))"

definition beginStringStep :: "scanner \<Rightarrow> char \<Rightarrow> error + scanner" where
  "beginStringStep s c =
     (if isSpace c then Inr s
      else if c = CHR 0x22 then Inr (s\<lparr>step := stateInString\<rparr>)
      else Inl (syntaxError c ''looking for beginning of object key string''))"

definition isExp :: "char \<Rightarrow> bool" where
  "isExp c = (c \<in> set ''eE'')"

definition state0Step :: "scanner \<Rightarrow> char \<Rightarrow> error + scanner" where
  "state0Step s c =
     (if c = CHR ''.'' then Inr (s\<lparr>step := stateDot\<rparr>)
      else if isExp c then Inr (s\<lparr>step := stateE\<rparr>)
      else endValueStep s c)"

definition eSignStep :: "scanner \<Rightarrow> char \<Rightarrow> error + scanner" where
  "eSignStep s c =
     (if isDigit c then Inr (s\<lparr>step := stateE0\<rparr>)
      else Inl (syntaxError c ''in exponent of numeric literal''))"

definition scanStep :: "scanner \<Rightarrow> char \<Rightarrow> error + scanner" where
  "scanStep s c =
     (case step s of
        stateBeginValueOrEmpty \<Rightarrow>
          if isSpace c then Inr s
          else if c = CHR '']'' then endValueStep s c
          else beginValueStep s c
      | stateBeginValue \<Rightarrow> beginValueStep s c
      | stateBeginStringOrEmpty \<Rightarrow>
          if isSpace c then Inr s
          else if c = CHR ''}'' then endValueStep (replaceTop s parseObjectValue) c
          else beginStringStep s c
      | stateBeginString \<Rightarrow> beginStringStep s c
      | stateEndValue \<Rightarrow> endValueStep s c
      | stateEndTop \<Rightarrow> endTopStep s c
      | stateInString \<Rightarrow>
          if c = CHR 0x22 then Inr (s\<lparr>step := stateEndValue\<rparr>)
          else if c = CHR 0x5C then Inr (s\<lparr>step := stateInStringEsc\<rparr>)
          else if (of_char c :: nat) < 32 then Inl (syntaxError c ''in string literal'')
          else Inr s
      | stateInStringEsc \<Rightarrow>
          if c \<in> set [CHR ''b'', CHR ''f'', CHR ''n'', CHR ''r'', CHR ''t'', CHR 0x5C, CHR ''/'', CHR 0x22]
          then Inr (s\<lparr>step := stateInString\<rparr>)
          else if c = CHR ''u'' then Inr (s\<lparr>step := stateInStringEscU 4\<rparr>)
          else Inl (syntaxError c ''in string escape code'')
      | stateInStringEscU k \<Rightarrow>
          if isHex c then Inr (s\<lparr>step := (if k \<le> 1 then stateInString else stateInStringEscU (k - 1))\<rparr>)
          else Inl (syntaxError c ([CHR ''i'', CHR ''n'', CHR '' '', CHR 0x5C] @ ''u hexadecimal character escape''))
      | stateNeg \<Rightarrow>
          if c = CHR ''0'' then Inr (s\<lparr>step := state0\<rparr>)
          else if isDigit c then Inr (s\<lparr>step := state1\<rparr>)
          else Inl (syntaxError c ''in numeric literal'')
      | state1 \<Rightarrow> if isDigit c then Inr s else state0Step s c
      | state0 \<Rightarrow> state0Step s c
      | stateDot \<Rightarrow>
          if isDigit c then Inr (s\<lparr>step := stateDot0\<rparr>)
          else Inl (syntaxError c ''after decimal point in numeric literal'')
      | stateDot0 \<Rightarrow>
          if isDigit c then Inr s
          else if isExp c then Inr (s\<lparr>step := stateE\<rparr>)
          else endValueStep s c
      | stateE \<Rightarrow>
          if c \<in> set ''+-'' then Inr (s\<lparr>step := stateESign\<rparr>) else eSignStep s c
      | stateESign \<Rightarrow> eSignStep s c
      | stateE0 \<Rightarrow> if isDigit c then Inr s else endValueStep s c
      | stateLiteral name rest \<Rightarrow>
          (case rest of
             [] \<Rightarrow> endValueStep s c
           | x # xs \<Rightarrow>
               if c = x then Inr (s\<lparr>step := (if xs = [] then stateEndValue else stateLiteral name xs)\<rparr>)
               else Inl (syntaxError c (''in literal '' @ name @ '' (expecting '' @ quoteChar x @ '')''))))"

fun scanBytes :: "scanner \<Rightarrow> string \<Rightarrow> error + scanner" where
  "scanBytes s [] = Inr s"
| "scanBytes s (c # cs) = (case scanStep s c of Inl err \<Rightarrow> Inl err | Inr s' \<Rightarrow> scanBytes s' cs)"

definition scanEof :: "scanner \<Rightarrow> error option" where
  "scanEof s =
     (if endTop s then None
      else (case scanStep s (CHR '' '') of
              Inl err \<Rightarrow> Some err
            | Inr s' \<Rightarrow> if endTop s' then None
                        else Some (SyntaxError ''unexpected end of JSON input'')))"

definition checkValid :: "string \<Rightarrow> error option" where
  "checkValid data =
     (case scanBytes \<lparr>step = stateBeginValue, parseState = [], endTop = False\<rparr> data of
        Inl err \<Rightarrow> Some err
      | Inr s \<Rightarrow> scanEof s)"

subsection \<open>The decoding stage, for the struct \<open>Request\<close>\<close>

text \<open>
  After the syntax check \<open>json.Unmarshal\<close> walks the value. For a destination struct
  with the two string fields \<open>Type\<close> and \<open>Index\<close>: a top-level \<open>null\<close> changes
  nothing; a top-level value that is not an object is a type error; in an object, a
  member whose key is the name of a field (exactly, or without regard to the case of
  ASCII letters) sets the field when its value is a string, leaves it alone when the
  value is \<open>null\<close>, and is a type error otherwise; other members are passed over; a
  later member for the same field overrides an earlier one. The first type error is
  kept and returned at the end, the fields decoded before and after it staying set. The
  functions below read bytes that have passed \<open>checkValid\<close>.
\<close>

record Request =
  Type :: string
  Index :: string

definition quote :: char where
  "quote = CHR 0x22"

definition backslash :: char where
  "backslash = CHR 0x5C"

text \<open>The text of a string literal after its opening quote, with its escapes as
  written, and the input after the closing quote.\<close>

fun stringLit :: "string \<Rightarrow> string \<times> string" where
  "stringLit [] = ([], [])"
| "stringLit [c] = (if c = quote then ([], []) else ([c], []))"
| "stringLit (c # e # es) =
     (if c = quote then ([], e # es)
      else if c = backslash then (case stringLit es of (r, rest) \<Rightarrow> (c # e # r, rest))
      else (case stringLit (e # es) of (r, rest) \<Rightarrow> (c # r, rest)))"

text \<open>The input after an object or array: \<open>d\<close> counts the brackets open,
  \<open>ins\<close> tells whether the position is inside a string literal.\<close>

fun skipComposite :: "nat \<Rightarrow> bool \<Rightarrow> string \<Rightarrow> string" where
  "skipComposite d ins [] = []"
| "skipComposite d ins [c] = []"
| "skipComposite d ins (c # e # es) =
     (if ins then
        (if c = backslash then skipComposite d True es
         else if c = quote then skipComposite d False (e # es)
         else skipComposite d True (e # es))
      else
        (if c = quote then skipComposite d True (e # es)
         else if c \<in> set ''{['' then skipComposite (Suc d) False (e # es)
         else if c \<in> set ''}]'' then (if d \<le> 1 then e # es else skipComposite (d - 1) False (e # es))
         else skipComposite d False (e # es)))"

definition skipValue :: "string \<Rightarrow> string" where
  "skipValue s =
     (case s of
        [] \<Rightarrow> []
      | c # cs \<Rightarrow>
          if c = quote then snd (stringLit cs)
          else if c \<in> set ''{['' then skipComposite 0 False s
          else dropWhile (\<lambda>x. \<not> (isSpace x \<or> x \<in> set '',}]'')) s)"

definition valueKind :: "char \<Rightarrow> string" where
  "valueKind c =
     (if c = quote then ''string''
      else if c = CHR ''{'' then ''object''
      else if c = CHR ''['' then ''array''
      else if c \<in> set ''tf'' then ''bool''
      else if c = CHR ''n'' then ''null''
      else ''number'')"

subsubsection \<open>\<open>unquote\<close>\<close>

text \<open>
  The bytes a string literal denotes. Escapes are replaced; \<open>\u\<close> escapes become the
  UTF-8 encoding of their code point, a surrogate pair that of the code point the pair
  encodes, a lone surrogate that of U+FFFD; bytes that are not valid UTF-8 are each
  replaced by the encoding of U+FFFD.
\<close>

definition hexVal :: "char \<Rightarrow> nat" where
  "hexVal c =
     (let n = of_char c :: nat in
      if isDigit c then n - 48 else if 97 \<le> n then n - 87 else n - 55)"

definition getu4 :: "string \<Rightarrow> nat option" where
  "getu4 s =
     (case s of
        b # u # h1 # h2 # h3 # h4 # _ \<Rightarrow>
          if b = backslash \<and> u = CHR ''u'' \<and> list_all isHex [h1, h2, h3, h4]
          then Some (((hexVal h1 * 16 + hexVal h2) * 16 + hexVal h3) * 16 + hexVal h4)
          else None
      | _ \<Rightarrow> None)"

definition EncodeRune :: "nat \<Rightarrow> string" where
  "EncodeRune r =
     (if r < 128 then [char_of r]
      else if r < 2048 then [char_of (192 + r div 64), char_of (128 + r mod 64)]
      else if 55296 \<le> r \<and> r < 57344 then [CHR 0xEF, CHR 0xBF, CHR 0xBD]
      else if r < 65536 then
        [char_of (224 + r div 4096), char_of (128 + (r div 64) mod 64), char_of (128 + r mod 64)]
      else if r < 1114112 then
        [char_of (240 + r div 262144), char_of (128 + (r div 4096) mod 64),
         char_of (128 + (r div 64) mod 64), char_of (128 + r mod 64)]
      else [CHR 0xEF, CHR 0xBF, CHR 0xBD])"

definition cont :: "nat \<Rightarrow> nat \<Rightarrow> char \<Rightarrow> bool" where
  "cont lo hi c = (lo \<le> (of_char c :: nat) \<and> (of_char c :: nat) \<le> hi)"

text \<open>\<open>utf8.DecodeRune\<close>: the number of bytes of the valid encoding the input starts
  with, 0 when it starts with none.\<close>

definition runeLen :: "string \<Rightarrow> nat" where
  "runeLen s =
     (case s of
        [] \<Rightarrow> 0
      | b0 # t \<Rightarrow>
          (let n = of_char b0 :: nat in
           if n < 128 then 1
           else if n < 194 then 0
           else if n < 224 then
             (case t of b1 # _ \<Rightarrow> if cont 128 191 b1 then 2 else 0 | _ \<Rightarrow> 0)
           else if n < 240 then
             (case t of
                b1 # b2 # _ \<Rightarrow>
                  if cont (if n = 224 then 160 else 128) (if n = 237 then 159 else 191) b1
                     \<and> cont 128 191 b2 then 3 else 0
              | _ \<Rightarrow> 0)
           else if n < 245 then
             (case t of
                b1 # b2 # b3 # _ \<Rightarrow>
                  if cont (if n = 240 then 144 else 128) (if n = 244 then 143 else 191) b1
                     \<and> cont 128 191 b2 \<and> cont 128 191 b3 then 4 else 0
              | _ \<Rightarrow> 0)
           else 0))"

definition escaped :: "char \<Rightarrow> char" where
  "escaped e =
     (if e = CHR ''b'' then CHR 0x08
      else if e = CHR ''f'' then CHR 0x0C
      else if e = CHR ''n'' then CHR 0x0A
      else if e = CHR ''r'' then CHR 0x0D
      else if e = CHR ''t'' then CHR 0x09
      else e)"

definition isSurrogate :: "nat \<Rightarrow> bool" where
  "isSurrogate r = (55296 \<le> r \<and> r < 57344)"

definition utf16Decode :: "nat \<Rightarrow> nat option \<Rightarrow> nat option" where
  "utf16Decode r1 r2 =
     (case r2 of
        None \<Rightarrow> None
      | Some r \<Rightarrow>
          if 55296 \<le> r1 \<and> r1 < 56320 \<and> 56320 \<le> r \<and> r < 57344
          then Some ((r1 - 55296) * 1024 + (r - 56320) + 65536)
          else None)"

function unquote :: "string \<Rightarrow> string" where
  "unquote s =
     (case s of
        [] \<Rightarrow> []
      | c # cs \<Rightarrow>
          if c = backslash then
            (case cs of
               [] \<Rightarrow> []
             | e # es \<Rightarrow>
                 if e = CHR ''u'' then
                   (case getu4 s of
                      None \<Rightarrow> []
                    | Some rr \<Rightarrow>
                        if isSurrogate rr then
                          (case utf16Decode rr (getu4 (drop 6 s)) of
                             Some dec \<Rightarrow> EncodeRune dec @ unquote (drop 12 s)
                           | None \<Rightarrow> EncodeRune 65533 @ unquote (drop 6 s))
                        else EncodeRune rr @ unquote (drop 6 s))
                 else escaped e # unquote es)
          else if (of_char c :: nat) < 128 then c # unquote cs
          else if runeLen s = 0 then EncodeRune 65533 @ unquote cs
          else take (runeLen s) s @ unquote (drop (runeLen s) s))"
  by pat_completeness auto
termination
  by (relation "measure length") auto

subsubsection \<open>Fields and members\<close>

definition upper :: "char \<Rightarrow> char" where
  "upper c = (let n = of_char c :: nat in if 97 \<le> n \<and> n \<le> 122 then char_of (n - 32) else c)"

definition fieldOf :: "string \<Rightarrow> string option" where
  "fieldOf key =
     (if key = ''Type'' then Some ''Type''
      else if key = ''Index'' then Some ''Index''
      else if map upper key = ''TYPE'' then Some ''Type''
      else if map upper key = ''INDEX'' then Some ''Index''
      else None)"

definition setField :: "string \<Rightarrow> string \<Rightarrow> Request \<Rightarrow> Request" where
  "setField name v r = (if name = ''Type'' then r\<lparr>Type := v\<rparr> else r\<lparr>Index := v\<rparr>)"

definition keepFirst :: "error option \<Rightarrow> error \<Rightarrow> error option" where
  "keepFirst saved err = (case saved of None \<Rightarrow> Some err | Some e \<Rightarrow> Some e)"

text \<open>
  The members of an object, from the input after its opening brace or after a comma.
  \<open>fuel\<close> bounds the number of members; the length of the input is enough, and a
  member list that outran it would leave the request as it then is.
\<close>

fun members :: "nat \<Rightarrow> string \<Rightarrow> error option \<times> Request \<Rightarrow> error option \<times> Request" where
  "members 0 s acc = acc"
| "members (Suc fuel) s acc =
     (case dropWhile isSpace s of
        [] \<Rightarrow> acc
      | c # cs \<Rightarrow>
          if c \<noteq> quote then acc
          else
            (case stringLit cs of
               (rawKey, afterKey) \<Rightarrow>
                 (let v = dropWhile isSpace (drop 1 (dropWhile isSpace afterKey));
                      acc' =
                        (case fieldOf (unquote rawKey) of
                           None \<Rightarrow> acc
                         | Some name \<Rightarrow>
                             (case v of
                                [] \<Rightarrow> acc
                              | x # xs \<Rightarrow>
                                  if x = quote
                                  then (fst acc, setField name (unquote (fst (stringLit xs))) (snd acc))
                                  else if x = CHR ''n'' then acc
                                  else (keepFirst (fst acc)
                                          (UnmarshalTypeError (valueKind x) (''Request.'' @ name)),
                                        snd acc)));
                      rest = dropWhile isSpace (skipValue v)
                  in case rest of
                       [] \<Rightarrow> acc'
                     | y # ys \<Rightarrow> if y = CHR '','' then members fuel ys acc' else acc')))"

definition decodeRequest :: "string \<Rightarrow> error option \<times> Request" where
  "decodeRequest data =
     (case dropWhile isSpace data of
        [] \<Rightarrow> (None, \<lparr>Type = [], Index = []\<rparr>)
      | c # cs \<Rightarrow>
          if c = CHR ''{'' then members (length data) cs (None, \<lparr>Type = [], Index = []\<rparr>)
          else if c = CHR ''n'' then (None, \<lparr>Type = [], Index = []\<rparr>)
          else (Some (UnmarshalTypeError (valueKind c) []), \<lparr>Type = [], Index = []\<rparr>))"

subsection \<open>\<open>handleRequest\<close>\<close>

record Response =
  Message :: string
  Error :: string

text \<open>\<open>json.Unmarshal(data, &request)\<close> for a \<open>request\<close> that starts as the zero
  value: the error, and the request as it is afterwards.\<close>

definition Unmarshal :: "string \<Rightarrow> error option \<times> Request" where
  "Unmarshal data =
     (case checkValid data of
        Some err \<Rightarrow> (Some err, \<lparr>Type = [], Index = []\<rparr>)
      | None \<Rightarrow> decodeRequest data)"

text \<open>
  One connection. \<open>recv\<close> is what \<open>conn.Read(buf)\<close> gives: an error, or the bytes
  it stored at the start of the 1024 zero bytes of \<open>buf\<close>. The whole of \<open>buf\<close> goes
  to \<open>json.Unmarshal\<close>. The result lists the responses handed to \<open>toJson\<close> and
  written to the connection, and the error returned.
\<close>

record handled =
  written :: "Response list"
  returned :: "error option"

definition readInto :: "string \<Rightarrow> string" where
  "readInto payload = take 1024 payload @ replicate (1024 - length payload) (CHR 0x00)"

definition handleRequest :: "world \<Rightarrow> error + string \<Rightarrow> handled" where
  "handleRequest w recv =
     (case recv of
        Inl err \<Rightarrow> \<lparr>written = [], returned = Some err\<rparr>
      | Inr payload \<Rightarrow>
          (let buf = readInto payload in
           case Unmarshal buf of
             (Some err, request) \<Rightarrow>
               \<lparr>written = [\<lparr>Message = [], Error = ''Could not decode the request JSON: '' @ errText err\<rparr>],
                returned = Some err\<rparr>
           | (None, request) \<Rightarrow>
               if Type request = ''ping''
               then \<lparr>written = [\<lparr>Message = ''pong'', Error = []\<rparr>], returned = None\<rparr>
               else if Type request \<noteq> ''reindex''
               then \<lparr>written = [\<lparr>Message = [], Error = ''Unknown request: '' @ Type request\<rparr>],
                     returned = None\<rparr>
               else
                 (case reindex w (Index request) of
                    Some err \<Rightarrow>
                      \<lparr>written = [\<lparr>Message = [], Error = ''Reindexing error: '' @ errText err\<rparr>],
                       returned = Some err\<rparr>
                  | None \<Rightarrow> \<lparr>written = [\<lparr>Message = ''OK'', Error = []\<rparr>], returned = None\<rparr>)))"

section \<open>The lines the polling loop inspects\<close>

text \<open>
  The loop of \<open>waitForRotation\<close> moves through the file: \<open>posAt c p0 i\<close> is the
  file position before iteration \<open>i\<close> when the position before the loop is \<open>p0\<close>,
  and \<open>lineAt c p0 i\<close> the line iteration \<open>i\<close> gets from its scanner. A line is a
  \<open>hit\<close> when the loop breaks on it: it is not empty, the pattern matches, and its
  timestamp is after the threshold. \<open>hits\<close> lists the iterations whose line is
  a hit, and \<open>stopsAfter\<close> counts the iterations from \<open>loop\<close> up to and
  including the first hit, 10 when there is none.
\<close>

fun posAt :: "(nat \<Rightarrow> string) \<Rightarrow> nat \<Rightarrow> nat \<Rightarrow> nat" where
  "posAt c p0 0 = p0"
| "posAt c p0 (Suc i) = (let p = posAt c p0 i in p + snd (scanFirst (drop p (c (Suc i)))))"

definition lineAt :: "(nat \<Rightarrow> string) \<Rightarrow> nat \<Rightarrow> nat \<Rightarrow> string" where
  "lineAt c p0 i = fst (scanFirst (drop (posAt c p0 i) (c (Suc i))))"

definition hit :: "rx \<Rightarrow> time \<Rightarrow> string \<Rightarrow> bool" where
  "hit re threshold line =
     (if line = [] then False
      else if 1 < length (FindStringSubmatch re line) then
        (case timeFromLog line of Inl _ \<Rightarrow> False | Inr date \<Rightarrow> After date threshold)
      else False)"

definition hits :: "rx \<Rightarrow> time \<Rightarrow> (nat \<Rightarrow> string) \<Rightarrow> nat \<Rightarrow> nat list" where
  "hits re threshold c p0 = filter (\<lambda>i. hit re threshold (lineAt c p0 i)) [0..<10]"

definition stopsAfter :: "rx \<Rightarrow> time \<Rightarrow> (nat \<Rightarrow> string) \<Rightarrow> nat \<Rightarrow> nat \<Rightarrow> nat" where
  "stopsAfter re threshold c p0 loop =
     (case find (\<lambda>i. hit re threshold (lineAt c p0 i)) [loop..<10] of
        None \<Rightarrow> 10
      | Some i \<Rightarrow> Suc i)"

text \<open>The position \<open>Seek\<close> leaves: the start of the tail window.\<close>

definition tailPos :: "string \<Rightarrow> nat" where
  "tailPos content = nat (int (length content) + tailOffset (int (length content)))"

section \<open>Sample inputs\<close>

definition marker :: string where
  "marker = ''rotating index: all indexes done''"

definition startedLine :: string where
  "startedLine = ''[Mon Oct 1 12:00:00.250 2012] [ 4242] accepting connections''"

definition doneLine :: string where
  "doneLine = ''[Mon Oct 1 12:00:07.125 2012] [ 4242] rotating index: all indexes done''"

definition oneLineLog :: string where
  "oneLineLog = startedLine @ [newline]"

definition twoLineLog :: string where
  "twoLineLog = startedLine @ [newline] @ doneLine @ [newline]"

definition noiseLog :: string where
  "noiseLog = ''xwatchdog: main process 4242 forked ok'' @ [newline]"

definition launchFails :: "string \<Rightarrow> string list \<Rightarrow> error option" where
  "launchFails prog args = Some (ExecError (''fork/exec '' @ prog @ '': no such file or directory''))"

definition emptyWorld :: world where
  "emptyWorld = \<lparr>logBefore = Content (static []), cmdRun = launchFails, logAfter = Content (static [])\<rparr>"

definition pingRequest :: string where
  "pingRequest = [CHR ''{'', CHR 0x22] @ ''Type'' @ [CHR 0x22, CHR '':'', CHR 0x22] @ ''ping'' @ [CHR 0x22, CHR ''}'']"

definition statusRequest :: string where
  "statusRequest = [CHR ''{'', CHR 0x22] @ ''Type'' @ [CHR 0x22, CHR '':'', CHR 0x22] @ ''status'' @ [CHR 0x22, CHR ''}'']"

section \<open>Properties of the matcher\<close>

text \<open>The recursion equations are used one at a time.\<close>

declare FindStringSubmatch.simps [simp del]
declare backtrack.simps [simp del]

lemma oneChar_caps: "p \<in> set (oneChar P s c) \<Longrightarrow> fst p = c"
  by (auto simp: oneChar_def split: list.splits if_splits)

lemma backtrack_caps_length:
  "p \<in> set (backtrack r s c) \<Longrightarrow> length (fst p) = length c"
proof (induction r s c arbitrary: p rule: backtrack.induct)
  case (1 s c)
  then show ?case by (simp add: backtrack.simps)
next
  case (2 a s c)
  then show ?case by (auto simp: backtrack.simps dest: oneChar_caps)
next
  case (3 a s c)
  then show ?case by (auto simp: backtrack.simps dest: oneChar_caps)
next
  case (4 s c)
  then show ?case by (auto simp: backtrack.simps dest: oneChar_caps)
next
  case (5 s c)
  then show ?case by (auto simp: backtrack.simps dest: oneChar_caps)
next
  case (6 s c)
  then show ?case by (auto simp: backtrack.simps dest: oneChar_caps)
next
  case (7 r1 r2 s c)
  from "7.prems" obtain x where x: "x \<in> set (backtrack r1 s c)"
    and p: "p \<in> set (backtrack r2 (snd x) (fst x))"
    by (auto simp: backtrack.simps(7))
  from "7.IH"(2) [OF x p] "7.IH"(1) [OF x] show ?case by simp
next
  case (8 r s c)
  from "8.prems" have "p \<in> set (concat (map (\<lambda>p. if length (snd p) < length s
              then backtrack (Star r) (snd p) (fst p) else []) (backtrack r s c)) @ [(c, s)])"
    by (subst (asm) backtrack.simps(8)) simp
  then consider "p = (c, s)"
    | x where "x \<in> set (backtrack r s c)" "length (snd x) < length s"
        "p \<in> set (backtrack (Star r) (snd x) (fst x))"
    by (auto split: if_splits)
  then show ?case
  proof cases
    case 1
    then show ?thesis by simp
  next
    case (2 x)
    from "8.IH"(2) [OF 2(1) 2(2) 2(3)] "8.IH"(1) [OF 2(1)] show ?thesis by simp
  qed
next
  case (9 n r s c)
  from "9.prems" obtain x where x: "x \<in> set (backtrack r s c)"
    and p: "fst p = (fst x)[n := take (length s - length (snd x)) s]"
    by (auto simp: backtrack.simps(9))
  from "9.IH" [OF x] p show ?case by simp
qed

lemma matchHere_Nil_iff: "matchHere r s = [] \<longleftrightarrow> backtrack r s [[], [], [], []] = []"
proof (cases "backtrack r s [[], [], [], []]")
  case Nil
  then show ?thesis by (simp add: matchHere_def)
next
  case (Cons p ps)
  then have "p \<in> set (backtrack r s [[], [], [], []])" by simp
  then have "length (fst p) = 4" using backtrack_caps_length by fastforce
  then show ?thesis using Cons by (auto simp add: matchHere_def)
qed

lemma matchHere_length: "matchHere r s = [] \<or> length (matchHere r s) = 4"
proof (cases "backtrack r s [[], [], [], []]")
  case Nil
  then show ?thesis by (simp add: matchHere_def)
next
  case (Cons p ps)
  then have "p \<in> set (backtrack r s [[], [], [], []])" by simp
  then have "length (fst p) = 4" using backtrack_caps_length by fastforce
  then show ?thesis using Cons by (simp add: matchHere_def)
qed

lemma FindStringSubmatch_length:
  "FindStringSubmatch r s = [] \<or> length (FindStringSubmatch r s) = 4"
proof (induction s)
  case Nil
  then show ?case using matchHere_length [of r "[]"] by (simp add: FindStringSubmatch.simps)
next
  case (Cons x xs)
  then show ?case using matchHere_length [of r "x # xs"]
    by (auto simp: FindStringSubmatch.simps split: list.splits)
qed

lemma matchHere_Seq: "matchHere (Seq r1 r2) s \<noteq> [] \<Longrightarrow> matchHere r1 s \<noteq> []"
  unfolding matchHere_Nil_iff by (auto simp: backtrack.simps(7))

lemma FindStringSubmatch_Seq:
  "FindStringSubmatch (Seq r1 r2) s \<noteq> [] \<Longrightarrow> FindStringSubmatch r1 s \<noteq> []"
proof (induction s)
  case Nil
  then show ?case using matchHere_Seq [of r1 r2 "[]"] by (simp add: FindStringSubmatch.simps)
next
  case (Cons x xs)
  show ?case
  proof (cases "matchHere r1 (x # xs)")
    case Nil
    then have "matchHere (Seq r1 r2) (x # xs) = []" using matchHere_Seq by blast
    then show ?thesis using Cons Nil by (simp add: FindStringSubmatch.simps)
  next
    case (Cons m ms)
    then show ?thesis by (simp add: FindStringSubmatch.simps)
  qed
qed

lemma timeFromLog_matched:
  "FindStringSubmatch searchdLogLinePrefix line \<noteq> [] \<Longrightarrow>
   timeFromLog line =
     Inr (parsedOrZero (Parse (FindStringSubmatch searchdLogLinePrefix line ! 1 @ '' '' @
                               FindStringSubmatch searchdLogLinePrefix line ! 3)))"
  using FindStringSubmatch_length [of searchdLogLinePrefix line]
  by (simp add: timeFromLog_def Let_def)

lemma timeFromLog_unmatched:
  "FindStringSubmatch searchdLogLinePrefix line = [] \<Longrightarrow>
   timeFromLog line = Inl (ErrorsNew ''Could not match a timestamp prefix'')"
  by (simp add: timeFromLog_def)

section \<open>The timestamp extractor\<close>

text \<open>
  C1. The claim: the millisecond group is added to the instant \<open>timeFromLog\<close>
  returns, so of two lines with the same date and year the one with the larger
  millisecond field is strictly later. The code computes the sum and drops it: both
  lines below give 15:04:05 sharp on January 2, 2012, and the first is not after the
  second.
\<close>

theorem timeFromLog_discards_milliseconds:
  "timeFromLog ''[Mon Jan 2 15:04:05.500 2012] a'' = Inr (Date 2012 1 2 15 4 5 0)
   \<and> timeFromLog ''[Mon Jan 2 15:04:05.100 2012] a'' = Inr (Date 2012 1 2 15 4 5 0)
   \<and> \<not> After (Date 2012 1 2 15 4 5 0) (Date 2012 1 2 15 4 5 0)"
  by code_simp

text \<open>
  C10. A line that matches the bracketed prefix but whose date text \<open>Parse\<close> rejects
  still gives a result without an error: the zero time.
\<close>

theorem timeFromLog_unparseable_date:
  assumes "FindStringSubmatch searchdLogLinePrefix line \<noteq> []"
      and "Parse (FindStringSubmatch searchdLogLinePrefix line ! 1 @ '' '' @
                  FindStringSubmatch searchdLogLinePrefix line ! 3) = Inl err"
  shows "timeFromLog line = Inr zeroTime"
  using assms by (simp add: timeFromLog_matched parsedOrZero_def)

lemma prefix_of_dateless_line:
  "FindStringSubmatch searchdLogLinePrefix ''[Mon Jan 2.500 2012]'' =
     [''[Mon Jan 2.500 2012]'', ''Mon Jan 2'', ''500'', ''2012'']"
  by code_simp

lemma Parse_dateless: "Parse ''Mon Jan 2 2012'' = Inl TimeParseError"
  by code_simp

theorem timeFromLog_unparseable_date_witness:
  "FindStringSubmatch searchdLogLinePrefix ''[Mon Jan 2.500 2012]'' \<noteq> []
   \<and> Parse (FindStringSubmatch searchdLogLinePrefix ''[Mon Jan 2.500 2012]'' ! 1 @ '' '' @
            FindStringSubmatch searchdLogLinePrefix ''[Mon Jan 2.500 2012]'' ! 3) = Inl TimeParseError
   \<and> timeFromLog ''[Mon Jan 2.500 2012]'' = Inr zeroTime"
  using timeFromLog_unparseable_date [of "''[Mon Jan 2.500 2012]''" TimeParseError]
  by (simp add: prefix_of_dateless_line Parse_dateless)

section \<open>Properties of the polling loop\<close>

declare rotationLoop.simps [simp del]
declare readLines.simps [simp del]

lemma rotationRx_timeFromLog:
  assumes "1 < length (FindStringSubmatch (rotationRx expression) line)"
  shows "\<exists>date. timeFromLog line = Inr date"
proof -
  from assms have "FindStringSubmatch (rotationRx expression) line \<noteq> []" by auto
  then have "FindStringSubmatch searchdLogLinePrefix line \<noteq> []"
    unfolding rotationRx_def by (rule FindStringSubmatch_Seq)
  then show ?thesis by (simp add: timeFromLog_matched)
qed

lemma rotationRx_needs_prefix:
  "FindStringSubmatch searchdLogLinePrefix line = [] \<Longrightarrow>
   FindStringSubmatch (rotationRx expression) line = []"
  using FindStringSubmatch_Seq [of searchdLogLinePrefix _ line] unfolding rotationRx_def by blast

lemma rotationLoop_done:
  "\<not> loop < 10 \<Longrightarrow>
   rotationLoop re threshold c loop pos out = \<lparr>r_err = None, r_loops = loop, r_printed = out\<rparr>"
  by (subst rotationLoop.simps) simp

lemma rotationLoop_hit:
  assumes "loop < 10" and "re = rotationRx expression"
    and "hit re threshold (fst (scanFirst (drop pos (c (Suc loop)))))"
  shows "rotationLoop re threshold c loop pos out =
     \<lparr>r_err = None, r_loops = Suc loop,
      r_printed = out @ [fst (scanFirst (drop pos (c (Suc loop))))]\<rparr>"
  using assms
  by (subst rotationLoop.simps)
     (auto simp: hit_def Let_def split: prod.splits sum.splits if_splits)

lemma rotationLoop_miss:
  assumes "loop < 10" and "re = rotationRx expression"
    and "\<not> hit re threshold (fst (scanFirst (drop pos (c (Suc loop)))))"
  shows "rotationLoop re threshold c loop pos out =
     rotationLoop re threshold c (Suc loop) (pos + snd (scanFirst (drop pos (c (Suc loop)))))
       (if fst (scanFirst (drop pos (c (Suc loop)))) = [] then out
        else out @ [fst (scanFirst (drop pos (c (Suc loop))))])"
proof -
  obtain line n where ln: "scanFirst (drop pos (c (Suc loop))) = (line, n)"
    by (cases "scanFirst (drop pos (c (Suc loop)))")
  show ?thesis
  proof (cases "line \<noteq> [] \<and> 1 < length (FindStringSubmatch re line)")
    case True
    then obtain date where d: "timeFromLog line = Inr date"
      using rotationRx_timeFromLog assms(2) by blast
    with True assms(3) ln have "\<not> After date threshold" by (simp add: hit_def)
    with True d ln assms(1) show ?thesis
      by (subst rotationLoop.simps) (simp add: Let_def)
  next
    case False
    with ln assms(1) show ?thesis
      by (subst rotationLoop.simps) (auto simp: Let_def)
  qed
qed

lemma stopsAfter_hit:
  "loop < 10 \<Longrightarrow> hit re threshold (lineAt c p0 loop) \<Longrightarrow> stopsAfter re threshold c p0 loop = Suc loop"
  by (simp add: stopsAfter_def upt_conv_Cons)

lemma stopsAfter_miss:
  "loop < 10 \<Longrightarrow> \<not> hit re threshold (lineAt c p0 loop) \<Longrightarrow>
   stopsAfter re threshold c p0 loop = stopsAfter re threshold c p0 (Suc loop)"
  by (simp add: stopsAfter_def upt_conv_Cons)

lemma stopsAfter_end: "\<not> loop < 10 \<Longrightarrow> stopsAfter re threshold c p0 loop = 10"
  by (simp add: stopsAfter_def)

lemma rotationLoop_loops:
  assumes "re = rotationRx expression"
  shows "loop \<le> 10 \<Longrightarrow>
    r_loops (rotationLoop re threshold c loop (posAt c p0 loop) out) = stopsAfter re threshold c p0 loop"
proof (induction "10 - loop" arbitrary: loop out)
  case 0
  then have "loop = 10" by simp
  then show ?case by (simp add: rotationLoop_done stopsAfter_end)
next
  case (Suc n)
  then have lt: "loop < 10" by simp
  show ?case
  proof (cases "hit re threshold (lineAt c p0 loop)")
    case True
    then show ?thesis using lt assms
      by (simp add: rotationLoop_hit [where expression = expression] stopsAfter_hit lineAt_def)
  next
    case False
    then have miss: "\<not> hit re threshold (fst (scanFirst (drop (posAt c p0 loop) (c (Suc loop)))))"
      by (simp add: lineAt_def)
    have n: "n = 10 - Suc loop" using Suc.hyps(2) by simp
    have le: "Suc loop \<le> 10" using lt by simp
    show ?thesis
      using Suc.hyps(1) [OF n le] False lt
      by (simp add: rotationLoop_miss [where c = c and pos = "posAt c p0 loop", OF lt assms miss]
            stopsAfter_miss Let_def)
  qed
qed

lemma rotationLoop_err:
  assumes "re = rotationRx expression"
  shows "r_err (rotationLoop re threshold c loop pos out) = None"
proof (induction "10 - loop" arbitrary: loop pos out)
  case 0
  then show ?case by (simp add: rotationLoop_done)
next
  case (Suc n)
  then have lt: "loop < 10" by simp
  show ?case
  proof (cases "hit re threshold (fst (scanFirst (drop pos (c (Suc loop)))))")
    case True
    then show ?thesis using lt assms
      by (simp add: rotationLoop_hit [where expression = expression])
  next
    case False
    have n: "n = 10 - Suc loop" using Suc.hyps(2) by simp
    show ?thesis using Suc.hyps(1) [OF n]
      by (simp add: rotationLoop_miss [where c = c and pos = pos, OF lt assms False])
  qed
qed

lemma SeekEnd_tail: "SeekEnd content (tailOffset (int (length content))) = Inr (tailPos content)"
  unfolding SeekEnd_def tailOffset_def tailPos_def Let_def by (simp add: max_def min_def)

lemma tailPos_cases:
  "tailPos content =
     (if length content = 0 then 0 else if length content \<le> 1025 then 1 else length content - 1024)"
  unfolding tailPos_def tailOffset_def by (cases content) (auto simp: max_def min_def)

lemma waitForRotation_Content:
  "waitForRotation (Content c) expression threshold =
     rotationLoop (rotationRx expression) threshold c 0 (tailPos (c 0)) []"
  by (simp add: waitForRotation_def SeekEnd_tail)

lemma stopsAfter_le: "stopsAfter re threshold c p0 loop \<le> 10"
proof (cases "find (\<lambda>i. hit re threshold (lineAt c p0 i)) [loop..<10]")
  case None
  then show ?thesis by (simp add: stopsAfter_def)
next
  case (Some i)
  then have "i \<in> set [loop..<10]" by (auto simp: find_Some_iff)
  then show ?thesis using Some by (simp add: stopsAfter_def)
qed

lemma find_filter_hd:
  "find P xs = (case filter P xs of [] \<Rightarrow> None | x # _ \<Rightarrow> Some x)"
  by (induction xs) auto

lemma stopsAfter_hits:
  "stopsAfter re threshold c p0 0 = (case hits re threshold c p0 of [] \<Rightarrow> 10 | i # _ \<Rightarrow> Suc i)"
  by (simp add: stopsAfter_def hits_def find_filter_hd split: list.splits)

lemma waitForRotation_loops:
  "r_loops (waitForRotation (Content c) expression threshold) =
     (case hits (rotationRx expression) threshold c (tailPos (c 0)) of [] \<Rightarrow> 10 | i # _ \<Rightarrow> Suc i)"
proof -
  have "r_loops (rotationLoop (rotationRx expression) threshold c 0 (posAt c (tailPos (c 0)) 0) []) =
        stopsAfter (rotationRx expression) threshold c (tailPos (c 0)) 0"
    by (rule rotationLoop_loops) simp_all
  then show ?thesis by (simp add: waitForRotation_Content stopsAfter_hits)
qed

lemma waitForRotation_err:
  "r_err (waitForRotation (Content c) expression threshold) = None"
  by (simp add: waitForRotation_Content rotationLoop_err [where expression = expression])

lemma hit_timeFromLog: "hit re threshold line \<Longrightarrow> \<exists>date. timeFromLog line = Inr date"
  by (auto simp: hit_def split: if_splits sum.splits)

section \<open>The tail reader\<close>

text \<open>
  C4. The claim: the reader seeks to \<open>max(0, length - 1024)\<close> from the start, and a
  file shorter than 1024 bytes is returned whole, first byte included. The code seeks
  back \<open>min(1024, max(length - 1, 0))\<close> bytes from the end, which for a file of 1 to
  1025 bytes is offset 1: the first byte is skipped. For a log of one line the line read
  has lost its opening bracket, and \<open>getLastTimestamp\<close> fails on it.
\<close>

theorem tail_reader_drops_first_byte:
  "SeekEnd oneLineLog (tailOffset (int (length oneLineLog))) = Inr 1
   \<and> fst (readLines (drop 1 oneLineLog)) = [drop 1 startedLine]
   \<and> getLastTimestamp (Content (static oneLineLog)) =
       (Some (ErrorsNew ''Could not match a timestamp prefix''), zeroTime)"
  by code_simp

section \<open>The reindex orchestrator\<close>

text \<open>
  C6. The claim: a failure to launch the indexing process is returned as an error. The
  code assigns the error of \<open>cmd.Run()\<close> and never reads it: with an indexer that
  cannot be started and an empty log, \<open>reindex\<close> returns nil.
\<close>

theorem reindex_ignores_launch_failure:
  "cmdRun emptyWorld indexerBinPath
      [''--config '' @ configPath, ''--rotate'', ''--quiet'', ''main''] =
     Some (ExecError ''fork/exec /usr/bin/indexer: no such file or directory'')
   \<and> reindex emptyWorld ''main'' = None"
  by code_simp

text \<open>What \<open>cmd.Run()\<close> returns has no part in the result of \<open>reindex\<close>.\<close>

lemma reindex_without_cmdRun: "reindex (w\<lparr>cmdRun := f\<rparr>) indexName = reindex w indexName"
  by (simp add: reindex_def Let_def split: prod.splits option.splits)

section \<open>The completion poller\<close>

text \<open>
  C2. The claim: every iteration reads the tail of the log again and inspects its most
  recent complete line, and the poller stops as soon as that line holds the marker with
  a timestamp after the watermark. The code positions the file once, before the loop,
  and makes a new scanner in every iteration, of which it takes one line: the first
  scanner reads the whole tail window into its buffer and gives its first line, and
  the lines behind it are lost with that scanner. On a log whose last line is the
  completion line, stamped after the watermark, the poller prints the line before it,
  finds nothing left to read in the iterations that follow, and runs all 10 iterations.
\<close>

theorem poll_misses_latest_line:
  "last (fst (readLines (drop (tailPos twoLineLog) twoLineLog))) = doneLine
   \<and> hit (rotationRx marker) baseDate doneLine
   \<and> r_loops (waitForRotation (Content (static twoLineLog)) marker baseDate) = 10
   \<and> r_printed (waitForRotation (Content (static twoLineLog)) marker baseDate) = [drop 1 startedLine]"
  by code_simp

lemma noiseLog_hits: "hits (rotationRx marker) baseDate (static noiseLog) (tailPos (static noiseLog 0)) = []"
  by code_simp

text \<open>
  C5. When no inspected line is a hit, the poller runs its 10 iterations and returns
  nil: there is no timeout error.
\<close>

theorem poll_exhaustion_is_success:
  assumes "hits (rotationRx expression) threshold c (tailPos (c 0)) = []"
  shows "r_loops (waitForRotation (Content c) expression threshold) = 10
         \<and> r_err (waitForRotation (Content c) expression threshold) = None"
  using assms by (simp add: waitForRotation_loops waitForRotation_err)

theorem poll_exhaustion_is_success_witness:
  "hits (rotationRx marker) baseDate (static noiseLog) (tailPos (static noiseLog 0)) = []
   \<and> r_loops (waitForRotation (Content (static noiseLog)) marker baseDate) = 10
   \<and> r_err (waitForRotation (Content (static noiseLog)) marker baseDate) = None"
  using poll_exhaustion_is_success [of marker baseDate "static noiseLog"] noiseLog_hits
  by simp

text \<open>
  C8, as the claim states it, fails: the line the poller reads from this log has no
  bracketed prefix, \<open>timeFromLog\<close> fails on it, and the poller prints it, goes through
  its 10 iterations and returns nil.
\<close>

theorem poll_returns_nil_on_malformed_line:
  "timeFromLog (drop 1 (butlast noiseLog)) = Inl (ErrorsNew ''Could not match a timestamp prefix'')
   \<and> r_printed (waitForRotation (Content (static noiseLog)) marker baseDate) = [drop 1 (butlast noiseLog)]
   \<and> r_err (waitForRotation (Content (static noiseLog)) marker baseDate) = None
   \<and> r_loops (waitForRotation (Content (static noiseLog)) marker baseDate) = 10"
  by code_simp

lemma noiseLog_line:
  "timeFromLog (lineAt (static noiseLog) (tailPos (static noiseLog 0)) 0) =
     Inl (ErrorsNew ''Could not match a timestamp prefix'')"
  by code_simp

text \<open>
  C8, amended. A line on which timestamp extraction fails does not match the poller's
  pattern either, so \<open>timeFromLog\<close> is not called on it: the line is skipped, the loop
  does not end with that iteration (unless it is the tenth), and the call returns nil.
\<close>

theorem poll_skips_unparseable_line:
  assumes "timeFromLog (lineAt c (tailPos (c 0)) i) = Inl err" and "Suc i < 10"
  shows "r_err (waitForRotation (Content c) expression threshold) = None
         \<and> r_loops (waitForRotation (Content c) expression threshold) \<noteq> Suc i"
proof -
  have "r_loops (waitForRotation (Content c) expression threshold) \<noteq> Suc i"
  proof
    assume stop: "r_loops (waitForRotation (Content c) expression threshold) = Suc i"
    then obtain js where "hits (rotationRx expression) threshold c (tailPos (c 0)) = i # js"
      using assms(2) by (auto simp: waitForRotation_loops split: list.splits)
    then have "i \<in> set (hits (rotationRx expression) threshold c (tailPos (c 0)))" by simp
    then have "hit (rotationRx expression) threshold (lineAt c (tailPos (c 0)) i)"
      by (simp add: hits_def)
    then show False using assms(1) hit_timeFromLog by fastforce
  qed
  then show ?thesis by (simp add: waitForRotation_err)
qed

theorem poll_skips_unparseable_line_witness:
  "timeFromLog (lineAt (static noiseLog) (tailPos (static noiseLog 0)) 0) =
     Inl (ErrorsNew ''Could not match a timestamp prefix'')
   \<and> Suc 0 < 10
   \<and> r_err (waitForRotation (Content (static noiseLog)) marker baseDate) = None
   \<and> r_loops (waitForRotation (Content (static noiseLog)) marker baseDate) \<noteq> Suc 0"
  using poll_skips_unparseable_line
          [of "static noiseLog" 0 "ErrorsNew ''Could not match a timestamp prefix''" marker baseDate]
        noiseLog_line
  by simp

section \<open>The connection handler\<close>

lemma scanBytes_append:
  "scanBytes s (xs @ ys) = (case scanBytes s xs of Inl err \<Rightarrow> Inl err | Inr s' \<Rightarrow> scanBytes s' ys)"
  by (induction xs arbitrary: s) (auto split: sum.splits)

lemma scanBytes_spaces:
  "step s = stateEndTop \<Longrightarrow> scanBytes s (replicate n (CHR '' '')) = Inr s"
  by (induction n) (auto simp: scanStep_def endTopStep_def isSpace_def)

lemma scanBytes_zeros:
  "step s = stateEndTop \<Longrightarrow> 0 < n \<Longrightarrow>
   scanBytes s (replicate n (CHR 0x00)) = Inl (syntaxError (CHR 0x00) ''after top-level value'')"
  by (cases n) (auto simp: scanStep_def endTopStep_def isSpace_def)

lemma readInto_short:
  "length payload \<le> 1024 \<Longrightarrow>
   readInto payload = payload @ replicate (1024 - length payload) (CHR 0x00)"
  by (simp add: readInto_def)

lemma readInto_full: "length payload = 1024 \<Longrightarrow> readInto payload = payload"
  by (simp add: readInto_def)

lemma checkValid_zero_padded:
  assumes "scanBytes \<lparr>step = stateBeginValue, parseState = [], endTop = False\<rparr> payload = Inr s"
    and "step s = stateEndTop" and "0 < n"
  shows "checkValid (payload @ replicate n (CHR 0x00)) =
           Some (syntaxError (CHR 0x00) ''after top-level value'')"
  using assms by (simp add: checkValid_def scanBytes_append scanBytes_zeros)

lemma checkValid_space_padded:
  assumes "scanBytes \<lparr>step = stateBeginValue, parseState = [], endTop = False\<rparr> payload = Inr s"
    and "step s = stateEndTop" and "endTop s"
  shows "checkValid (payload @ replicate n (CHR '' '')) = None"
  using assms by (simp add: checkValid_def scanBytes_append scanBytes_spaces scanEof_def)

lemma pingRequest_scan:
  "scanBytes \<lparr>step = stateBeginValue, parseState = [], endTop = False\<rparr> pingRequest =
     Inr \<lparr>step = stateEndTop, parseState = [], endTop = True\<rparr>"
  by code_simp

lemma statusRequest_scan:
  "scanBytes \<lparr>step = stateBeginValue, parseState = [], endTop = False\<rparr> statusRequest =
     Inr \<lparr>step = stateEndTop, parseState = [], endTop = True\<rparr>"
  by code_simp

lemma pingRequest_length: "length pingRequest = 15"
  by (simp add: pingRequest_def)

lemma statusRequest_length: "length statusRequest = 17"
  by (simp add: statusRequest_def)

declare unquote.simps [simp del]

lemma unquote_Type: "unquote ''Type'' = ''Type''"
  by code_simp

lemma unquote_status: "unquote ''status'' = ''status''"
  by code_simp

lemma unquote_ping: "unquote ''ping'' = ''ping''"
  by code_simp

lemma statusRequest_decode:
  "decodeRequest (statusRequest @ pad) = (None, \<lparr>Type = ''status'', Index = []\<rparr>)"
  by (simp add: decodeRequest_def statusRequest_def isSpace_def quote_def backslash_def
        skipValue_def fieldOf_def setField_def unquote_Type unquote_status Let_def)

lemma pingRequest_decode:
  "decodeRequest (pingRequest @ pad) = (None, \<lparr>Type = ''ping'', Index = []\<rparr>)"
  by (simp add: decodeRequest_def pingRequest_def isSpace_def quote_def backslash_def
        skipValue_def fieldOf_def setField_def unquote_Type unquote_ping Let_def)

lemma statusRequest_decoded:
  "Unmarshal (readInto (statusRequest @ replicate 1007 (CHR '' ''))) =
     (None, \<lparr>Type = ''status'', Index = []\<rparr>)"
  using checkValid_space_padded [OF statusRequest_scan, of 1007]
  by (simp add: readInto_full statusRequest_length Unmarshal_def statusRequest_decode)

lemma pingRequest_valid: "checkValid pingRequest = None"
  by code_simp

lemma zero_after_top:
  "errText (syntaxError (CHR 0x00) ''after top-level value'') =
     ''invalid character '' @ [CHR 0x27, CHR 0x5C] @ ''x00'' @ [CHR 0x27] @ '' after top-level value''"
  by code_simp

text \<open>
  C3. The claim: a connection whose payload is the JSON object with \<open>Type\<close>
  \<open>"ping"\<close> gets the response \<open>{Message:"pong", Error:""}\<close>. The handler passes
  all 1024 bytes of its buffer to \<open>json.Unmarshal\<close>, not the bytes read: the 15 bytes
  of \<open>{"Type":"ping"}\<close>, valid by themselves, are followed by 1009 zero bytes, and
  the syntax check rejects the first of them. The response written is the decoding
  error.
\<close>

theorem ping_request_is_not_decoded:
  "checkValid pingRequest = None
   \<and> handleRequest w (Inr pingRequest) =
       \<lparr>written = [\<lparr>Message = [],
                    Error = ''Could not decode the request JSON: invalid character ''
                            @ [CHR 0x27, CHR 0x5C] @ ''x00'' @ [CHR 0x27] @ '' after top-level value''\<rparr>],
        returned = Some (syntaxError (CHR 0x00) ''after top-level value'')\<rparr>"
proof -
  have "checkValid (readInto pingRequest) = Some (syntaxError (CHR 0x00) ''after top-level value'')"
    using checkValid_zero_padded [OF pingRequest_scan, of 1009]
    by (simp add: readInto_short pingRequest_length)
  then show ?thesis
    using zero_after_top by (simp add: handleRequest_def Unmarshal_def pingRequest_valid)
qed

lemma scanStep_zero:
  assumes "\<And>name rest. step s = stateLiteral name rest \<Longrightarrow> CHR 0x00 \<notin> set rest"
  shows "\<exists>err. scanStep s (CHR 0x00) = Inl err"
proof (cases "step s")
  case (stateLiteral name rest)
  with assms have "CHR 0x00 \<notin> set rest" by simp
  with stateLiteral show ?thesis
    by (cases rest)
       (auto simp: scanStep_def endValueStep_def endTopStep_def isSpace_def split: pstate.splits)
qed (auto simp: scanStep_def endValueStep_def endTopStep_def beginValueStep_def beginStringStep_def
       state0Step_def eSignStep_def isSpace_def isDigit_def isHex_def isExp_def
     split: pstate.splits)

lemma endValueStep_step:
  "endValueStep s c = Inr s' \<Longrightarrow> step s' \<in> {stateEndTop, stateEndValue, stateBeginValue, stateBeginString}"
  by (auto simp: endValueStep_def endTopStep_def popParseState_def replaceTop_def Let_def
      split: if_splits pstate.splits)

lemma beginValueStep_step:
  "beginValueStep s c = Inr s' \<Longrightarrow> step s' = stateLiteral name rest \<Longrightarrow>
   step s = stateLiteral name rest \<or> rest \<in> {''rue'', ''alse'', ''ull''}"
  by (auto simp: beginValueStep_def pushParseState_def split: if_splits)

lemma scanStep_literal:
  assumes "scanStep s c = Inr s'" and "step s' = stateLiteral name rest"
  shows "rest \<in> {''rue'', ''alse'', ''ull''} \<or> (\<exists>x. step s = stateLiteral name (x # rest))"
proof (cases "step s")
  case stateBeginValueOrEmpty
  with assms show ?thesis
    using endValueStep_step [of s c s'] beginValueStep_step [of s c s' name rest]
    by (auto simp: scanStep_def split: if_splits)
next
  case stateBeginValue
  with assms show ?thesis
    using beginValueStep_step [of s c s' name rest] by (auto simp: scanStep_def)
next
  case stateBeginStringOrEmpty
  with assms show ?thesis
    using endValueStep_step [of "replaceTop s parseObjectValue" c s']
    by (auto simp: scanStep_def beginStringStep_def split: if_splits)
next
  case stateBeginString
  with assms show ?thesis by (auto simp: scanStep_def beginStringStep_def split: if_splits)
next
  case stateEndValue
  with assms show ?thesis using endValueStep_step [of s c s'] by (auto simp: scanStep_def)
next
  case stateEndTop
  with assms show ?thesis by (auto simp: scanStep_def endTopStep_def split: if_splits)
next
  case stateInString
  with assms show ?thesis by (auto simp: scanStep_def split: if_splits)
next
  case stateInStringEsc
  with assms show ?thesis by (auto simp: scanStep_def split: if_splits)
next
  case (stateInStringEscU k)
  with assms show ?thesis by (auto simp: scanStep_def split: if_splits)
next
  case stateNeg
  with assms show ?thesis by (auto simp: scanStep_def split: if_splits)
next
  case state1
  with assms show ?thesis using endValueStep_step [of s c s']
    by (auto simp: scanStep_def state0Step_def split: if_splits)
next
  case state0
  with assms show ?thesis using endValueStep_step [of s c s']
    by (auto simp: scanStep_def state0Step_def split: if_splits)
next
  case stateDot
  with assms show ?thesis by (auto simp: scanStep_def split: if_splits)
next
  case stateDot0
  with assms show ?thesis using endValueStep_step [of s c s']
    by (auto simp: scanStep_def split: if_splits)
next
  case stateE
  with assms show ?thesis by (auto simp: scanStep_def eSignStep_def split: if_splits)
next
  case stateESign
  with assms show ?thesis by (auto simp: scanStep_def eSignStep_def split: if_splits)
next
  case stateE0
  with assms show ?thesis using endValueStep_step [of s c s']
    by (auto simp: scanStep_def split: if_splits)
next
  case (stateLiteral n r)
  with assms show ?thesis using endValueStep_step [of s c s']
    by (cases r) (auto simp: scanStep_def split: if_splits)
qed

lemma scanStep_keeps_literals:
  assumes "\<And>name rest. step s = stateLiteral name rest \<Longrightarrow> CHR 0x00 \<notin> set rest"
    and "scanStep s c = Inr s'" and "step s' = stateLiteral name rest"
  shows "CHR 0x00 \<notin> set rest"
  using scanStep_literal [OF assms(2,3)] assms(1) by auto

lemma scanBytes_zero:
  assumes "CHR 0x00 \<in> set cs"
  shows "(\<And>name rest. step s = stateLiteral name rest \<Longrightarrow> CHR 0x00 \<notin> set rest) \<Longrightarrow>
         \<exists>err. scanBytes s cs = Inl err"
  using assms
proof (induction cs arbitrary: s)
  case Nil
  then show ?case by simp
next
  case (Cons c cs)
  show ?case
  proof (cases "scanStep s c")
    case (Inl err)
    then show ?thesis by simp
  next
    case (Inr s')
    have zero: "c \<noteq> CHR 0x00" using scanStep_zero [of s] Cons.prems(1) Inr by fastforce
    then have "CHR 0x00 \<in> set cs" using Cons.prems(2) by simp
    moreover have "\<And>name rest. step s' = stateLiteral name rest \<Longrightarrow> CHR 0x00 \<notin> set rest"
      using scanStep_keeps_literals [OF _ Inr] Cons.prems(1) by blast
    ultimately have "\<exists>err. scanBytes s' cs = Inl err" using Cons.IH by blast
    then show ?thesis using Inr by simp
  qed
qed

lemma checkValid_zero: "CHR 0x00 \<in> set data \<Longrightarrow> \<exists>err. checkValid data = Some err"
  using scanBytes_zero [of data "\<lparr>step = stateBeginValue, parseState = [], endTop = False\<rparr>"]
  by (auto simp: checkValid_def)

lemma readInto_zero: "length payload < 1024 \<Longrightarrow> CHR 0x00 \<in> set (readInto payload)"
  by (simp add: readInto_def)

text \<open>
  The zero bytes are fatal to every short request: no state of the syntax check accepts
  a zero byte, so a payload of fewer than 1024 bytes, whatever it holds, is answered with
  the decoding error.
\<close>

lemma short_request_not_decoded:
  assumes "length payload < 1024"
  shows "\<exists>err. handleRequest w (Inr payload) =
           \<lparr>written = [\<lparr>Message = [], Error = ''Could not decode the request JSON: '' @ errText err\<rparr>],
            returned = Some err\<rparr>"
proof -
  obtain err where "checkValid (readInto payload) = Some err"
    using checkValid_zero readInto_zero assms by blast
  then show ?thesis by (simp add: handleRequest_def Unmarshal_def)
qed

text \<open>
  The same request filled up with spaces to the 1024 bytes of the buffer is answered
  with \<open>pong\<close>.
\<close>

lemma padded_ping_gets_pong:
  "handleRequest w (Inr (pingRequest @ replicate 1009 (CHR '' ''))) =
     \<lparr>written = [\<lparr>Message = ''pong'', Error = []\<rparr>], returned = None\<rparr>"
  using checkValid_space_padded [OF pingRequest_scan, of 1009]
  by (simp add: handleRequest_def readInto_full pingRequest_length Unmarshal_def pingRequest_decode)

text \<open>
  C9. When the request is decoded without an error and its \<open>Type\<close> is neither
  \<open>"ping"\<close> nor \<open>"reindex"\<close>, the one response written has an empty message and
  the error \<open>Unknown request: \<close> followed by the \<open>Type\<close> as decoded; the handler
  returns nil.
\<close>

theorem unknown_request_response:
  assumes "Unmarshal (readInto payload) = (None, request)"
    and "Type request \<noteq> ''ping''" and "Type request \<noteq> ''reindex''"
  shows "handleRequest w (Inr payload) =
           \<lparr>written = [\<lparr>Message = [], Error = ''Unknown request: '' @ Type request\<rparr>],
            returned = None\<rparr>"
  using assms by (simp add: handleRequest_def)

theorem unknown_request_response_witness:
  "Unmarshal (readInto (statusRequest @ replicate 1007 (CHR '' ''))) =
     (None, \<lparr>Type = ''status'', Index = []\<rparr>)
   \<and> handleRequest emptyWorld (Inr (statusRequest @ replicate 1007 (CHR '' ''))) =
       \<lparr>written = [\<lparr>Message = [], Error = ''Unknown request: status''\<rparr>], returned = None\<rparr>"
  using unknown_request_response
          [of "statusRequest @ replicate 1007 (CHR '' '')" "\<lparr>Type = ''status'', Index = []\<rparr>" emptyWorld]
        statusRequest_decoded
  by simp

section \<open>The watermark of an empty log\<close>

lemma digitVal_range: "isDigit c \<Longrightarrow> 0 \<le> digitVal c \<and> digitVal c \<le> 9"
  by (auto simp: isDigit_def digitVal_def)

lemma getnum_nonneg: "getnum s fixed = Inr (n, r) \<Longrightarrow> 0 \<le> n"
  using digitVal_range [of "s ! 0"] digitVal_range [of "s ! 1"]
  by (auto simp: getnum_def isDigitAt_def split: if_splits)

lemma lookup_range:
  "lookup tab i v = Inr (k, r) \<Longrightarrow> int i \<le> k \<and> k < int i + int (length tab)"
proof (induction tab arbitrary: i)
  case Nil
  then show ?case by simp
next
  case (Cons a tab)
  show ?case
  proof (cases "length a \<le> length v \<and> match (take (length a) v) a")
    case True
    with Cons.prems show ?thesis by auto
  next
    case False
    with Cons.prems have "lookup tab (Suc i) v = Inr (k, r)" by auto
    from Cons.IH [OF this] show ?thesis by simp
  qed
qed

lemma inRange_ok: "inRange x bound r = Inr r' \<Longrightarrow> 0 \<le> x \<and> x < bound"
  by (auto simp: inRange_def split: if_splits)

lemma digitsVal_nonneg: "list_all isDigit cs \<Longrightarrow> 0 \<le> acc \<Longrightarrow> 0 \<le> digitsVal cs acc"
proof (induction cs arbitrary: acc)
  case Nil
  then show ?case by simp
next
  case (Cons c cs)
  then have "0 \<le> acc * 10 + digitVal c" using digitVal_range [of c] by simp
  with Cons show ?case by simp
qed

lemma longYear_nonneg: "longYear v = Inr (y, r) \<Longrightarrow> 0 \<le> y"
  by (auto simp: longYear_def digitsVal_nonneg split: if_splits)

lemma fraction_digits:
  assumes "2 \<le> length v" and "isDigitAt v 1"
  shows "list_all isDigit (drop 1 (take (2 + length (takeWhile isDigit (drop 2 v))) v))"
proof -
  obtain a b w where v: "v = a # b # w"
    using assms(1) by (cases v; cases "tl v") auto
  then have b: "isDigit b" using assms(2) by (simp add: isDigitAt_def)
  have "take (length (takeWhile isDigit w)) w = takeWhile isDigit w"
    by (simp add: takeWhile_eq_take [symmetric])
  then have "drop 1 (take (2 + length (takeWhile isDigit (drop 2 v))) v) = b # takeWhile isDigit w"
    by (simp add: v)
  moreover have "list_all isDigit (takeWhile isDigit w)"
    by (auto simp: list_all_iff dest: set_takeWhileD)
  ultimately show ?thesis using b by simp
qed

lemma fraction_nonneg: "fraction v = (ns, r) \<Longrightarrow> 0 \<le> ns"
proof (cases "2 \<le> length v \<and> commaOrPeriod (v ! 0) \<and> isDigitAt v 1")
  case True
  assume f: "fraction v = (ns, r)"
  let ?n = "2 + length (takeWhile isDigit (drop 2 v))"
  from True have d: "list_all isDigit (drop 1 (take ?n v))" using fraction_digits [of v] by blast
  have "set (drop 1 (take 10 (take ?n v))) \<subseteq> set (drop 1 (take ?n v))"
    by (metis drop_take set_take_subset)
  with d have "list_all isDigit (drop 1 (take 10 (take ?n v)))"
    by (auto simp: list_all_iff)
  then have "0 \<le> digitsVal (drop 1 (take 10 (take ?n v))) 0" by (simp add: digitsVal_nonneg)
  then have "0 \<le> parseNanoseconds (take ?n v)" by (simp add: parseNanoseconds_def Let_def)
  with f True show ?thesis by (simp add: fraction_def Let_def)
next
  case False
  assume "fraction v = (ns, r)"
  with False show ?thesis by (auto simp: fraction_def)
qed

lemma parseFields_inRanges: "parseFields v = Inr f \<Longrightarrow> inRanges f"
  unfolding parseFields_def bindE_def
  apply (simp del: skip.simps split: sum.splits prod.splits if_splits)
  apply (drule lookup_range)+
  apply (drule getnum_nonneg)+
  apply (drule inRange_ok)+
  apply (drule longYear_nonneg)
  apply (drule fraction_nonneg)
  apply (auto simp: inRanges_def shortMonthNames_def)
  done

lemma daysSinceEpoch_2013:
  assumes "2013 \<le> y"
  shows "734868 \<le> daysSinceEpoch y"
proof -
  consider "y = 2013" | "y = 2014" | "2015 \<le> y" using assms by linarith
  then show ?thesis
  proof cases
    case 1
    then show ?thesis by (simp add: daysSinceEpoch_def)
  next
    case 2
    then show ?thesis by (simp add: daysSinceEpoch_def)
  next
    case 3
    have a: "(y - 1) div 100 \<le> (y - 1) div 4"
      by (rule zdiv_mono2) (use 3 in auto)
    have b: "0 \<le> (y - 1) div 400"
      using 3 by (simp add: pos_imp_zdiv_nonneg_iff)
    have lin: "\<And>p q r k :: int. q \<le> p \<Longrightarrow> 0 \<le> r \<Longrightarrow> 2014 \<le> k \<Longrightarrow>
                 734868 \<le> 365 * k + p - q + r"
      by linarith
    have "2014 \<le> y - 1" using 3 by simp
    from lin [OF a b this] show ?thesis unfolding daysSinceEpoch_def .
  qed
qed

lemma month_cases:
  "1 \<le> m \<Longrightarrow> m \<le> 12 \<Longrightarrow> m \<in> {1, 2, 3, 4, 5, 6, 7, 8, 9, 10, 11, (12::int)}"
  by simp arith

lemma daysBefore_nonneg: "1 \<le> m \<Longrightarrow> m \<le> 12 \<Longrightarrow> 0 \<le> daysBefore ! nat (m - 1)"
  using month_cases [of m] by (auto simp: daysBefore_def)

lemma days_in_2012:
  assumes "1 \<le> m" and "m \<le> 12" and "1 \<le> d" and "if m = 9 then 7 < d else 9 < m"
  shows "734752 < daysSinceEpoch 2012 + daysBefore ! nat (m - 1)
                    + (if isLeap 2012 \<and> 3 \<le> m then 1 else 0) + (d - 1)"
  using month_cases [OF assms(1,2)] assms(3,4)
  by (auto simp: daysBefore_def daysSinceEpoch_def isLeap_def)

lemma days_after_2012:
  assumes "1 \<le> m" and "m \<le> 12" and "1 \<le> d" and "2012 < y"
  shows "734752 < daysSinceEpoch y + daysBefore ! nat (m - 1)
                    + (if isLeap y \<and> 3 \<le> m then 1 else 0) + (d - 1)"
  using daysSinceEpoch_2013 [of y] daysBefore_nonneg [OF assms(1,2)] assms(3,4) by auto

lemma later_day_later_instant:
  fixes D h mi s ns :: int
  assumes "734752 < D" and "0 \<le> h" and "0 \<le> mi" and "0 \<le> s" and "0 \<le> ns"
  shows "63482608800000000000 < (((D * 24 + h) * 60 + mi) * 60 + s) * 1000000000 + ns"
  using assms by (simp add: algebra_simps)

lemma same_day_later_instant:
  fixes h mi s ns :: int
  assumes "0 \<le> h" and "0 \<le> mi" and "0 \<le> s" and "0 \<le> ns"
    and "if h = 10 then (if mi = 0 then 0 < s else 0 < mi) else 10 < h"
  shows "63482608800000000000 < (((734752 * 24 + h) * 60 + mi) * 60 + s) * 1000000000 + ns"
  using assms by (simp add: algebra_simps split: if_splits)

lemma epoch_day:
  "daysSinceEpoch 2012 + daysBefore ! nat (9 - 1) + (if isLeap 2012 \<and> 3 \<le> (9::int) then 1 else 0) + (7 - 1)
     = 734752"
  by (simp add: daysBefore_def daysSinceEpoch_def isLeap_def)

lemma epoch_instant: "fieldsTime epochFields = Time 63482608800000000000"
  by (simp add: fieldsTime_def epochFields_def Date_def daysBefore_def daysSinceEpoch_def isLeap_def)

lemma baseDate_instant: "baseDate = Time 63482608800000000000"
  by code_simp

lemma after_epoch:
  assumes "inRanges f" and "laterThan f epochFields"
  shows "After (fieldsTime f) baseDate"
proof -
  let ?D = "daysSinceEpoch (f_year f) + daysBefore ! nat (f_month f - 1)
              + (if isLeap (f_year f) \<and> 3 \<le> f_month f then 1 else 0) + (f_day f - 1)"
  from assms(1) have r: "1 \<le> f_month f" "f_month f \<le> 12" "1 \<le> f_day f"
    "0 \<le> f_hour f" "0 \<le> f_min f" "0 \<le> f_sec f" "0 \<le> f_nsec f"
    by (simp_all add: inRanges_def)
  have t: "nanos (fieldsTime f) =
      (((?D * 24 + f_hour f) * 60 + f_min f) * 60 + f_sec f) * 1000000000 + f_nsec f"
    by (simp add: fieldsTime_def Date_def Let_def)
  consider (year) "2012 < f_year f"
    | (day) "f_year f = 2012" "if f_month f = 9 then 7 < f_day f else 9 < f_month f"
    | (time) "f_year f = 2012" "f_month f = 9" "f_day f = 7"
        "if f_hour f = 10 then (if f_min f = 0 then 0 < f_sec f else 0 < f_min f) else 10 < f_hour f"
    using assms(2) by (auto simp: laterThan_def epochFields_def split: if_splits)
  then have "63482608800000000000 < nanos (fieldsTime f)"
  proof cases
    case year
    from days_after_2012 [OF r(1,2,3) year] have "734752 < ?D" .
    from later_day_later_instant [OF this r(4,5,6,7)] t show ?thesis by simp
  next
    case day
    from days_in_2012 [OF r(1,2,3) day(2)] day(1) have "734752 < ?D" by simp
    from later_day_later_instant [OF this r(4,5,6,7)] t show ?thesis by simp
  next
    case time
    then have "?D = 734752" using epoch_day by simp
    with same_day_later_instant [OF r(4,5,6,7) time(4)] t show ?thesis by simp
  qed
  then show ?thesis by (simp add: After_def baseDate_instant)
qed

lemma readLines_Nil: "readLines [] = ([], None)"
  by (subst readLines.simps) simp

lemma getLastTimestamp_empty: "c 0 = [] \<Longrightarrow> getLastTimestamp (Content c) = (None, baseDate)"
  by (simp add: getLastTimestamp_def SeekEnd_tail tailPos_cases readLines_Nil)

lemma baseDate_Date: "baseDate = Date 2012 9 7 10 0 0 0"
  by code_simp

lemma doneLine_prefix:
  "FindStringSubmatch searchdLogLinePrefix doneLine =
     [''[Mon Oct 1 12:00:07.125 2012]'', ''Mon Oct 1 12:00:07'', ''125'', ''2012'']"
  by code_simp

lemma doneLine_fields:
  "parseFields ''Mon Oct 1 12:00:07 2012'' =
     Inr \<lparr>f_year = 2012, f_month = 10, f_day = 1, f_hour = 12, f_min = 0, f_sec = 7, f_nsec = 0\<rparr>"
  by code_simp

lemma doneLine_later:
  "laterThan \<lparr>f_year = 2012, f_month = 10, f_day = 1, f_hour = 12, f_min = 0, f_sec = 7, f_nsec = 0\<rparr>
     epochFields"
  by code_simp

text \<open>
  C7. For an empty log the watermark \<open>getLastTimestamp\<close> returns is \<open>baseDate\<close>,
  which is 10:00:00 on September 7, 2012, and every log line whose bracketed date and year
  parse to a later second of the calendar has a timestamp strictly after the watermark.
\<close>

theorem empty_log_watermark:
  assumes "c 0 = []"
  shows "getLastTimestamp (Content c) = (None, Date 2012 9 7 10 0 0 0)
    \<and> (\<forall>line f.
          FindStringSubmatch searchdLogLinePrefix line \<noteq> []
          \<and> parseFields (FindStringSubmatch searchdLogLinePrefix line ! 1 @ '' '' @
                          FindStringSubmatch searchdLogLinePrefix line ! 3) = Inr f
          \<and> laterThan f epochFields
          \<longrightarrow> (\<exists>t. timeFromLog line = Inr t \<and> After t (snd (getLastTimestamp (Content c)))))"
proof -
  have w: "getLastTimestamp (Content c) = (None, baseDate)"
    using assms by (rule getLastTimestamp_empty)
  have "\<exists>t. timeFromLog line = Inr t \<and> After t baseDate"
    if m: "FindStringSubmatch searchdLogLinePrefix line \<noteq> []"
    and p: "parseFields (FindStringSubmatch searchdLogLinePrefix line ! 1 @ '' '' @
                          FindStringSubmatch searchdLogLinePrefix line ! 3) = Inr f"
    and l: "laterThan f epochFields" for line f
  proof -
    from p have "inRanges f" by (rule parseFields_inRanges)
    then have "After (fieldsTime f) baseDate" using l by (rule after_epoch)
    moreover have "timeFromLog line = Inr (fieldsTime f)"
      using m p by (simp add: timeFromLog_matched Parse_def parsedOrZero_def)
    ultimately show ?thesis by simp
  qed
  then show ?thesis using w baseDate_Date by auto
qed

theorem empty_log_watermark_witness:
  "static [] 0 = []
   \<and> getLastTimestamp (Content (static [])) = (None, Date 2012 9 7 10 0 0 0)
   \<and> (\<exists>t. timeFromLog doneLine = Inr t \<and> After t (snd (getLastTimestamp (Content (static [])))))"
proof -
  let ?f = "\<lparr>f_year = 2012, f_month = 10, f_day = 1, f_hour = 12, f_min = 0, f_sec = 7, f_nsec = 0\<rparr>"
  have e: "static [] 0 = []" by (simp add: static_def)
  note th = empty_log_watermark [of "static []", OF e]
  have m: "FindStringSubmatch searchdLogLinePrefix doneLine \<noteq> []"
    by (simp add: doneLine_prefix)
  have p: "parseFields (FindStringSubmatch searchdLogLinePrefix doneLine ! 1 @ '' '' @
                        FindStringSubmatch searchdLogLinePrefix doneLine ! 3) = Inr ?f"
    using doneLine_fields by (simp add: doneLine_prefix)
  from th have "FindStringSubmatch searchdLogLinePrefix doneLine \<noteq> []
          \<and> parseFields (FindStringSubmatch searchdLogLinePrefix doneLine ! 1 @ '' '' @
                          FindStringSubmatch searchdLogLinePrefix doneLine ! 3) = Inr ?f
          \<and> laterThan ?f epochFields
          \<longrightarrow> (\<exists>t. timeFromLog doneLine = Inr t
                   \<and> After t (snd (getLastTimestamp (Content (static [])))))"
    by blast
  with m p doneLine_later
  have "\<exists>t. timeFromLog doneLine = Inr t \<and> After t (snd (getLastTimestamp (Content (static []))))"
    by blast
  with th e show ?thesis by blast
qed

end
